theory Spec2Isabelle
  imports Complex_Main "HOL-Library.Word" "HOL-Library.Code_Target_Numeral"
begin

section \<open>Strings and the regular-expression helpers the utilities rely on\<close>

text \<open>
  A JavaScript string is a sequence of UTF-16 code units; \<open>length\<close>, \<open>substring\<close>,
  \<open>split\<close> and the character classes of a regular expression without the \<open>u\<close> flag all
  work on code units. A code unit is modelled as a natural number (no arithmetic is done
  on code units, so no wrap-around can occur).
\<close>

type_synonym jsstring = "nat list"

definition str :: "string \<Rightarrow> jsstring" where
  "str s = map of_char s"

text \<open>The class \<open>\w\<close>: \<open>[A-Za-z0-9_]\<close>.\<close>

definition isWordChar :: "nat \<Rightarrow> bool" where
  "isWordChar c \<longleftrightarrow> (48 \<le> c \<and> c \<le> 57) \<or> (65 \<le> c \<and> c \<le> 90) \<or> c = 95 \<or> (97 \<le> c \<and> c \<le> 122)"

text \<open>
  The class \<open>\s\<close> (ECMAScript WhiteSpace and LineTerminator), which is also the set of
  code units that \<open>String.prototype.trim\<close> strips.
\<close>

definition isSpace :: "nat \<Rightarrow> bool" where
  "isSpace c \<longleftrightarrow> (9 \<le> c \<and> c \<le> 13) \<or> c = 32 \<or> c = 160 \<or> c = 5760 \<or> (8192 \<le> c \<and> c \<le> 8202)
     \<or> c = 8232 \<or> c = 8233 \<or> c = 8239 \<or> c = 8287 \<or> c = 12288 \<or> c = 65279"

text \<open>The class \<open>[.!?]\<close>.\<close>

definition isSentenceEnd :: "nat \<Rightarrow> bool" where
  "isSentenceEnd c \<longleftrightarrow> c = 46 \<or> c = 33 \<or> c = 63"

text \<open>
  \<open>s.split(/C+/)\<close> for a character class \<open>C\<close>: the pieces of \<open>s\<close> between the maximal runs
  of characters of \<open>C\<close>. A run at the start of \<open>s\<close> gives a leading empty piece, a run at the
  end a trailing empty piece, and the empty string gives one empty piece. \<open>cur\<close> is the
  piece being read (reversed), \<open>inrun\<close> says that the previous character was a separator.
\<close>

fun splitLoop :: "('a \<Rightarrow> bool) \<Rightarrow> 'a list \<Rightarrow> bool \<Rightarrow> 'a list \<Rightarrow> 'a list list" where
  "splitLoop sep cur inrun [] = [rev cur]"
| "splitLoop sep cur inrun (c # cs) =
     (if sep c then
        (if inrun then splitLoop sep cur True cs
         else rev cur # splitLoop sep [] True cs)
      else splitLoop sep (c # cur) False cs)"

definition split :: "('a \<Rightarrow> bool) \<Rightarrow> 'a list \<Rightarrow> 'a list list" where
  "split sep s = splitLoop sep [] False s"

definition trim :: "jsstring \<Rightarrow> jsstring" where
  "trim s = rev (dropWhile isSpace (rev (dropWhile isSpace s)))"

fun join :: "'a list \<Rightarrow> 'a list list \<Rightarrow> 'a list" where
  "join sep [] = []"
| "join sep [x] = x"
| "join sep (x # y # ys) = x @ sep @ join sep (y # ys)"

section \<open>The heuristic text analyzer (aiAnalysis.ts)\<close>

subsection \<open>generateSummary\<close>

definition placeholder :: jsstring where
  "placeholder = str ''This document contains structured data or content that requires specialized analysis.''"

definition sentences :: "jsstring \<Rightarrow> jsstring list" where
  "sentences text = filter (\<lambda>s. length (trim s) > 10) (split isSentenceEnd text)"

definition firstSentences :: "jsstring \<Rightarrow> jsstring" where
  "firstSentences text = join (str ''. '') (take 3 (sentences text))"

definition generateSummary :: "jsstring \<Rightarrow> jsstring" where
  "generateSummary text =
     (if length (firstSentences text) > 200 then take 200 (firstSentences text) @ str ''...''
      else if firstSentences text = [] then placeholder
      else firstSentences text)"

subsection \<open>extractKeywords\<close>

text \<open>
  \<open>String.prototype.toLowerCase\<close> follows the Unicode case tables, which are not part of
  the repository: the functions that call it take it as the parameter \<open>lc\<close>. On a string
  whose code units are all below 128 it is \<open>toLowerCaseAscii\<close>.
\<close>

definition toLowerCaseAscii :: "jsstring \<Rightarrow> jsstring" where
  "toLowerCaseAscii s = map (\<lambda>c. if 65 \<le> c \<and> c \<le> 90 then c + 32 else c) s"

text \<open>\<open>.replace(/[^\w\s]/g, ' ')\<close>\<close>

definition stripPunctuation :: "jsstring \<Rightarrow> jsstring" where
  "stripPunctuation s = map (\<lambda>c. if \<not> isWordChar c \<and> \<not> isSpace c then 32 else c) s"

definition tokens :: "(jsstring \<Rightarrow> jsstring) \<Rightarrow> jsstring \<Rightarrow> jsstring list" where
  "tokens lc text = split isSpace (stripPunctuation (lc text))"

definition keywordWords :: "(jsstring \<Rightarrow> jsstring) \<Rightarrow> jsstring \<Rightarrow> jsstring list" where
  "keywordWords lc text = filter (\<lambda>word. length word > 3) (tokens lc text)"

definition stopWords :: "jsstring list" where
  "stopWords = map str
    [''this'', ''that'', ''with'', ''have'', ''will'', ''from'', ''they'', ''know'',
     ''want'', ''been'', ''good'', ''much'', ''some'', ''time'', ''very'', ''when'',
     ''come'', ''here'', ''just'', ''like'', ''long'', ''make'', ''many'', ''over'',
     ''such'', ''take'', ''than'', ''them'', ''well'', ''were'', ''what'', ''your'',
     ''about'', ''after'', ''again'', ''before'', ''being'', ''could'', ''every'',
     ''first'', ''found'', ''great'', ''group'', ''large'', ''last'', ''little'',
     ''most'', ''never'', ''only'', ''other'', ''place'', ''right'', ''same'',
     ''should'', ''small'', ''still'', ''those'', ''through'', ''under'', ''where'',
     ''while'', ''work'', ''world'', ''would'', ''years'', ''young'']"

text \<open>
  A JavaScript \<open>Map\<close> keeps its entries in insertion order: \<open>set\<close> on a key that is
  present replaces the value where the entry stands, \<open>set\<close> on a new key appends the
  entry. It is modelled as an association list.
\<close>

fun mapGet :: "('k \<times> 'v) list \<Rightarrow> 'k \<Rightarrow> 'v option" where
  "mapGet [] k = None"
| "mapGet ((k', v') # m) k = (if k' = k then Some v' else mapGet m k)"

fun mapSet :: "('k \<times> 'v) list \<Rightarrow> 'k \<Rightarrow> 'v \<Rightarrow> ('k \<times> 'v) list" where
  "mapSet [] k v = [(k, v)]"
| "mapSet ((k', v') # m) k v = (if k' = k then (k', v) # m else (k', v') # mapSet m k v)"

text \<open>The body of the \<open>forEach\<close> that counts the words.\<close>

definition countWord :: "(jsstring \<times> nat) list \<Rightarrow> jsstring \<Rightarrow> (jsstring \<times> nat) list" where
  "countWord wordCount word =
     (if word \<notin> set stopWords \<and> length word > 3
      then mapSet wordCount word ((case mapGet wordCount word of None \<Rightarrow> 0 | Some n \<Rightarrow> n) + 1)
      else wordCount)"

definition wordCounts :: "jsstring list \<Rightarrow> (jsstring \<times> nat) list" where
  "wordCounts ws = foldl countWord [] ws"

text \<open>
  \<open>.sort((a, b) => b[1] - a[1])\<close>: \<open>Array.prototype.sort\<close> is stable, and the comparator
  puts the larger count first. It is modelled as the stable insertion sort of the library
  on the key \<open>- count\<close>.
\<close>

definition sortByCountDesc :: "(jsstring \<times> nat) list \<Rightarrow> (jsstring \<times> nat) list" where
  "sortByCountDesc entries = sort_key (\<lambda>e. - int (snd e)) entries"

definition extractKeywords :: "(jsstring \<Rightarrow> jsstring) \<Rightarrow> jsstring \<Rightarrow> jsstring list" where
  "extractKeywords lc text =
     map fst (take 8 (sortByCountDesc (wordCounts (keywordWords lc text))))"

subsection \<open>analyzeSentiment\<close>

datatype sentiment = Positive | Negative | Neutral

definition positiveWords :: "jsstring list" where
  "positiveWords = map str
    [''good'', ''great'', ''excellent'', ''amazing'', ''wonderful'', ''fantastic'',
     ''love'', ''like'', ''enjoy'', ''happy'', ''pleased'', ''satisfied'', ''success'',
     ''successful'', ''perfect'', ''best'', ''awesome'', ''brilliant'', ''outstanding'']"

definition negativeWords :: "jsstring list" where
  "negativeWords = map str
    [''bad'', ''terrible'', ''awful'', ''horrible'', ''hate'', ''dislike'', ''angry'',
     ''sad'', ''disappointed'', ''frustrated'', ''problem'', ''issue'', ''error'',
     ''fail'', ''failure'', ''worst'', ''difficult'', ''hard'', ''impossible'']"

text \<open>\<open>text.toLowerCase().split(/\W+/)\<close>\<close>

definition splitNonWord :: "(jsstring \<Rightarrow> jsstring) \<Rightarrow> jsstring \<Rightarrow> jsstring list" where
  "splitNonWord lc text = split (\<lambda>c. \<not> isWordChar c) (lc text)"

text \<open>The \<open>forEach\<close> over the words, on the pair \<open>(positiveCount, negativeCount)\<close>.\<close>

definition sentimentStep :: "nat \<times> nat \<Rightarrow> jsstring \<Rightarrow> nat \<times> nat" where
  "sentimentStep counts word =
     (let positiveCount = (if word \<in> set positiveWords then fst counts + 1 else fst counts);
          negativeCount = (if word \<in> set negativeWords then snd counts + 1 else snd counts)
      in (positiveCount, negativeCount))"

definition sentimentCounts :: "(jsstring \<Rightarrow> jsstring) \<Rightarrow> jsstring \<Rightarrow> nat \<times> nat" where
  "sentimentCounts lc text = foldl sentimentStep (0, 0) (splitNonWord lc text)"

definition analyzeSentiment :: "(jsstring \<Rightarrow> jsstring) \<Rightarrow> jsstring \<Rightarrow> sentiment" where
  "analyzeSentiment lc text =
     (let (positiveCount, negativeCount) = sentimentCounts lc text in
      if positiveCount > negativeCount then Positive
      else if negativeCount > positiveCount then Negative
      else Neutral)"

subsection \<open>detectLanguage\<close>

definition commonEnglishWords :: "jsstring list" where
  "commonEnglishWords = map str
    [''the'', ''and'', ''for'', ''are'', ''but'', ''not'', ''you'', ''all'', ''can'', ''had'',
     ''her'', ''was'', ''one'', ''our'', ''out'', ''day'', ''get'', ''has'', ''him'', ''his'',
     ''how'', ''man'', ''new'', ''now'', ''old'', ''see'', ''two'', ''way'', ''who'', ''boy'',
     ''did'', ''its'', ''let'', ''put'', ''say'', ''she'', ''too'', ''use'']"

text \<open>
  The accented letters of the Spanish and French lists are single code units: e acute
  is 233 (que, with the accent), a acute 225 (esta, mas), i acute 237 (si, aqui),
  a grave 224 and e circumflex 234 (etre).
\<close>

definition commonSpanishWords :: "jsstring list" where
  "commonSpanishWords =
     map str [''que'', ''de'', ''no'', ''a'', ''la'', ''el'', ''es'', ''y'', ''en'', ''lo'', ''un'', ''por'']
     @ [str ''qu'' @ [233]]
     @ map str [''me'', ''una'', ''te'', ''los'', ''se'', ''con'', ''para'', ''mi'']
     @ [str ''est'' @ [225]]
     @ map str [''si'', ''bien'', ''pero'', ''yo'', ''eso'', ''las'']
     @ [str ''s'' @ [237]]
     @ map str [''su'', ''tu'']
     @ [str ''aqu'' @ [237]]
     @ map str [''del'', ''al'', ''como'', ''le'']
     @ [str ''m'' @ [225] @ str ''s'']
     @ map str [''esto'', ''ya'', ''todo'']"

definition commonFrenchWords :: "jsstring list" where
  "commonFrenchWords =
     map str [''le'', ''de'', ''et'']
     @ [[224]]
     @ map str [''un'', ''il'']
     @ [[234] @ str ''tre'']
     @ map str [''et'', ''en'', ''avoir'', ''que'', ''pour'', ''dans'', ''ce'', ''son'', ''une'', ''sur'',
                ''avec'', ''ne'', ''se'', ''pas'', ''tout'', ''plus'', ''par'', ''grand'', ''en'', ''une'']
     @ [[234] @ str ''tre'']
     @ map str [''et'', ''en'', ''avoir'', ''que'', ''pour'']"

text \<open>The \<open>forEach\<close> over the words, on \<open>(englishScore, spanishScore, frenchScore)\<close>.\<close>

definition languageStep :: "nat \<times> nat \<times> nat \<Rightarrow> jsstring \<Rightarrow> nat \<times> nat \<times> nat" where
  "languageStep scores word =
     (case scores of (englishScore, spanishScore, frenchScore) \<Rightarrow>
       (if word \<in> set commonEnglishWords then englishScore + 1 else englishScore,
        if word \<in> set commonSpanishWords then spanishScore + 1 else spanishScore,
        if word \<in> set commonFrenchWords then frenchScore + 1 else frenchScore))"

definition languageScores :: "(jsstring \<Rightarrow> jsstring) \<Rightarrow> jsstring \<Rightarrow> nat \<times> nat \<times> nat" where
  "languageScores lc text = foldl languageStep (0, 0, 0) (take 100 (splitNonWord lc text))"

definition detectLanguage :: "(jsstring \<Rightarrow> jsstring) \<Rightarrow> jsstring \<Rightarrow> jsstring" where
  "detectLanguage lc text =
     (case languageScores lc text of (englishScore, spanishScore, frenchScore) \<Rightarrow>
       if englishScore \<ge> spanishScore \<and> englishScore \<ge> frenchScore then str ''English''
       else if spanishScore \<ge> frenchScore then str ''Spanish''
       else if frenchScore > 0 then str ''French''
       else str ''Unknown'')"

section \<open>The file converter (fileConverter.ts)\<close>

subsection \<open>Files, errors and the collaborators\<close>

text \<open>
  A \<open>File\<close> as the converter sees it: its name, its declared MIME type, its size in
  bytes and its modification time (milliseconds since the epoch); \<open>ftype\<close> and \<open>fsize\<close>
  are the fields \<open>type\<close> and \<open>size\<close>. The content is read through the collaborators
  below. A byte of a \<open>Uint8Array\<close> is an 8-bit word.
\<close>

type_synonym byte = "8 word"

record File =
  name :: jsstring
  ftype :: jsstring
  fsize :: nat
  lastModified :: int

text \<open>Every \<open>throw new Error(message)\<close> of the source is the value \<open>Error message\<close>.\<close>

datatype error = Error jsstring

record zipEntry =
  relativePath :: jsstring
  dir :: bool
  uncompressedSize :: "nat option"

text \<open>
  The platform and the third-party libraries the converter calls. A call that throws
  (or a promise that rejects) returns \<open>None\<close>.
  \<^item> \<open>toLowerCase\<close>: \<open>String.prototype.toLowerCase\<close>;
  \<^item> \<open>readAsText\<close>: \<open>FileReader.readAsText\<close>, the content of the file decoded as text;
  \<^item> \<open>arrayBuffer\<close>: \<open>File.arrayBuffer\<close>, the bytes of the file;
  \<^item> \<open>JSON_parse\<close>: \<open>JSON.parse(text)\<close>, on a type \<open>'j\<close> of JSON values;
  \<^item> \<open>JSON_stringify\<close>: \<open>JSON.stringify(value, replacer, space)\<close>; the replacer is a
    list of property names or \<open>null\<close> (here \<open>None\<close>), and \<open>space\<close> is the number of spaces
    of one level of indentation;
  \<^item> \<open>mammoth_extractRawText\<close>: the raw text of a word-processing document;
  \<^item> \<open>XLSX_sheets\<close>: \<open>XLSX.read\<close> followed by \<open>sheet_to_csv\<close> on every sheet: the
    sheet names in workbook order, each with its CSV rendering;
  \<^item> \<open>pdf_pages\<close>: \<open>pdfjsLib.getDocument\<close>, \<open>getPage\<close> and \<open>getTextContent\<close>: for every
    page in order, the strings of its text items;
  \<^item> \<open>Tesseract_recognize\<close>: the text recognised in an image;
  \<^item> \<open>getImageDimensions\<close>: the natural width and height of the image when it loads;
  \<^item> \<open>JSZip_loadAsync\<close>: the entries of an archive, in the order \<open>forEach\<close> visits them;
  \<^item> \<open>toLocaleString\<close>: \<open>new Date(t).toLocaleString()\<close>.
\<close>

record 'j env =
  toLowerCase :: "jsstring \<Rightarrow> jsstring"
  readAsText :: "File \<Rightarrow> jsstring option"
  arrayBuffer :: "File \<Rightarrow> byte list option"
  JSON_parse :: "jsstring \<Rightarrow> 'j option"
  JSON_stringify :: "'j \<Rightarrow> jsstring list option \<Rightarrow> nat \<Rightarrow> jsstring option"
  mammoth_extractRawText :: "byte list \<Rightarrow> jsstring option"
  XLSX_sheets :: "byte list \<Rightarrow> (jsstring \<times> jsstring) list option"
  pdf_pages :: "byte list \<Rightarrow> jsstring list list option"
  Tesseract_recognize :: "File \<Rightarrow> jsstring option"
  getImageDimensions :: "File \<Rightarrow> (nat \<times> nat) option"
  JSZip_loadAsync :: "File \<Rightarrow> zipEntry list option"
  toLocaleString :: "int \<Rightarrow> jsstring"

subsection \<open>String helpers\<close>

definition startsWith :: "'a list \<Rightarrow> 'a list \<Rightarrow> bool" where
  "startsWith s p \<longleftrightarrow> take (length p) s = p"

definition endsWith :: "'a list \<Rightarrow> 'a list \<Rightarrow> bool" where
  "endsWith s p \<longleftrightarrow> length p \<le> length s \<and> drop (length s - length p) s = p"

text \<open>The decimal digits of a natural number, as a number below \<open>10^21\<close> is printed.\<close>

fun numToString :: "nat \<Rightarrow> jsstring" where
  "numToString n = (if n < 10 then [48 + n] else numToString (n div 10) @ [48 + n mod 10])"

declare numToString.simps [simp del]

text \<open>The line feed, and \<open>'='.repeat(50)\<close>.\<close>

definition LF :: jsstring where
  "LF = [10]"

definition separator50 :: jsstring where
  "separator50 = replicate 50 61"

subsection \<open>formatFileSize\<close>

text \<open>
  A JavaScript number is an IEEE 754 double. A double is modelled as the real number it
  stands for, and every operation that rounds is followed by \<open>roundToDouble\<close>, the
  rounding to the nearest double: a real \<open>x\<close> other than 0 lies in one binade
  \<open>2^e \<le> |x| < 2^(e+1)\<close>, where the doubles are the multiples of \<open>ulp x = 2^(e-52)\<close>, and
  \<open>x\<close> goes to the nearest multiple, to the one with the even mantissa when two are
  equally near. Overflow and subnormal numbers are left out: the logarithms and quotients
  of \<open>formatFileSize\<close> are zero or lie between \<open>1/16\<close> and \<open>2^10\<close>, far from both.
\<close>

definition roundHalfEven :: "real \<Rightarrow> int" where
  "roundHalfEven z =
     (let f = \<lfloor>z\<rfloor> in
      if z - of_int f < 1 / 2 then f
      else if z - of_int f > 1 / 2 then f + 1
      else if even f then f else f + 1)"

definition ulp :: "real \<Rightarrow> real" where
  "ulp x = 2 powr (of_int \<lfloor>log 2 \<bar>x\<bar>\<rfloor> - 52)"

definition roundToDouble :: "real \<Rightarrow> real" where
  "roundToDouble x =
     (if x = 0 then 0 else sgn x * (of_int (roundHalfEven (\<bar>x\<bar> / ulp x)) * ulp x))"

text \<open>
  \<open>Math.log\<close>: ECMAScript leaves the precision of \<open>Math.log\<close> to the implementation; the
  model takes the correctly rounded natural logarithm. The division of two doubles is the
  rounded quotient.
\<close>

definition Math_log :: "real \<Rightarrow> real" where
  "Math_log x = roundToDouble (ln x)"

definition fdiv :: "real \<Rightarrow> real \<Rightarrow> real" where
  "fdiv a b = roundToDouble (a / b)"

text \<open>
  \<open>bytes\<close> is a byte count, a natural number that the number passed to \<open>formatFileSize\<close>
  holds exactly.

  \<open>parseFloat(x.toFixed(2))\<close> followed by the conversion to a string: \<open>toFixed(2)\<close>
  rounds \<open>x\<close> to the nearest hundredth (the larger one when two are equally near),
  \<open>parseFloat\<close> reads the digits back, and the concatenation prints the number without
  the trailing zeros of its fraction. \<open>toFixed2 x\<close> is the number of hundredths.
\<close>

definition toFixed2 :: "real \<Rightarrow> nat" where
  "toFixed2 x = nat \<lfloor>x * 100 + 1 / 2\<rfloor>"

definition showHundredths :: "nat \<Rightarrow> jsstring" where
  "showHundredths n =
     numToString (n div 100) @
     (if n mod 100 = 0 then []
      else if n mod 10 = 0 then [46, 48 + n mod 100 div 10]
      else [46, 48 + n mod 100 div 10, 48 + n mod 10])"

definition sizes :: "jsstring list" where
  "sizes = map str [''Bytes'', ''KB'', ''MB'', ''GB'']"

text \<open>
  \<open>sizes[i]\<close>: an index outside the array reads \<open>undefined\<close> (here \<open>None\<close>), which the
  concatenation prints as the word \<open>undefined\<close>.
\<close>

definition arrayAt :: "'a list \<Rightarrow> int \<Rightarrow> 'a option" where
  "arrayAt xs i = (if 0 \<le> i \<and> i < int (length xs) then Some (xs ! nat i) else None)"

definition showUnit :: "jsstring option \<Rightarrow> jsstring" where
  "showUnit u = (case u of None \<Rightarrow> str ''undefined'' | Some s \<Rightarrow> s)"

text \<open>
  \<open>Math.floor(Math.log(bytes) / Math.log(k))\<close> with \<open>k = 1024\<close>: the floor of the rounded
  quotient of two rounded logarithms. It can differ from the floor of the exact
  logarithm to base 1024 next to a power of 1024.
\<close>

definition unitIndex :: "nat \<Rightarrow> int" where
  "unitIndex bytes = \<lfloor>fdiv (Math_log (real bytes)) (Math_log 1024)\<rfloor>"

text \<open>
  \<open>Math.pow(k, i)\<close> is the power of two \<open>1024^i\<close>, which a double holds exactly; the division
  by it rounds.
\<close>

definition formatFileSize :: "nat \<Rightarrow> jsstring" where
  "formatFileSize bytes =
     (if bytes = 0 then str ''0 Bytes''
      else
        let k = 1024 :: real;
            i = unitIndex bytes
        in showHundredths (toFixed2 (fdiv (real bytes) (k powr real_of_int i))) @ str '' '' @
           showUnit (arrayAt sizes i))"

subsection \<open>The extraction routines\<close>

definition readTextFile :: "'j env \<Rightarrow> File \<Rightarrow> error + jsstring" where
  "readTextFile env file =
     (case readAsText env file of
        None \<Rightarrow> Inl (Error (str ''Failed to read file''))
      | Some text \<Rightarrow> Inr text)"

definition convertDocxToText :: "'j env \<Rightarrow> File \<Rightarrow> error + jsstring" where
  "convertDocxToText env file =
     (case arrayBuffer env file of
        None \<Rightarrow> Inl (Error (str ''Failed to convert DOCX file''))
      | Some buffer \<Rightarrow>
          (case mammoth_extractRawText env buffer of
             None \<Rightarrow> Inl (Error (str ''Failed to convert DOCX file''))
           | Some v \<Rightarrow> Inr v))"

definition sheetText :: "jsstring \<Rightarrow> jsstring \<times> jsstring \<Rightarrow> jsstring" where
  "sheetText text sheet =
     text @ str ''Sheet: '' @ fst sheet @ LF @ separator50 @ LF @ snd sheet @ LF @ LF"

definition convertExcelToText :: "'j env \<Rightarrow> File \<Rightarrow> error + jsstring" where
  "convertExcelToText env file =
     (case arrayBuffer env file of
        None \<Rightarrow> Inl (Error (str ''Failed to convert Excel file''))
      | Some buffer \<Rightarrow>
          (case XLSX_sheets env buffer of
             None \<Rightarrow> Inl (Error (str ''Failed to convert Excel file''))
           | Some sheets \<Rightarrow> Inr (foldl sheetText [] sheets)))"

text \<open>The loop over the pages, \<open>pageNum\<close> counting from 1.\<close>

fun pdfLoop :: "nat \<Rightarrow> jsstring list list \<Rightarrow> jsstring \<Rightarrow> jsstring" where
  "pdfLoop pageNum [] fullText = fullText"
| "pdfLoop pageNum (items # pages) fullText =
     pdfLoop (pageNum + 1) pages
       (fullText @ str ''Page '' @ numToString pageNum @ str '':'' @ LF @ join (str '' '') items @ LF @ LF)"

definition convertPdfToText :: "'j env \<Rightarrow> File \<Rightarrow> error + jsstring" where
  "convertPdfToText env file =
     (case arrayBuffer env file of
        None \<Rightarrow> Inl (Error (str ''Failed to convert PDF file''))
      | Some buffer \<Rightarrow>
          (case pdf_pages env buffer of
             None \<Rightarrow> Inl (Error (str ''Failed to convert PDF file''))
           | Some pages \<Rightarrow> Inr (trim (pdfLoop 1 pages []))))"

definition extractImageMetadata :: "'j env \<Rightarrow> File \<Rightarrow> jsstring" where
  "extractImageMetadata env file =
     (let metadata =
            [str ''File: '' @ name file,
             str ''Type: '' @ ftype file,
             str ''Size: '' @ formatFileSize (fsize file),
             str ''Last Modified: '' @ toLocaleString env (lastModified file)];
          metadata' =
            (case getImageDimensions env file of
               None \<Rightarrow> metadata
             | Some (width, height) \<Rightarrow>
                 metadata @ [str ''Dimensions: '' @ numToString width @ str ''x'' @ numToString height @ str ''px''])
      in str ''Image Metadata:'' @ LF @ join LF metadata')"

text \<open>
  The \<open>catch\<close> of \<open>convertImageToText\<close> does not rethrow: when the recognition throws,
  the metadata is returned.
\<close>

definition convertImageToText :: "'j env \<Rightarrow> File \<Rightarrow> error + jsstring" where
  "convertImageToText env file =
     (case Tesseract_recognize env file of
        None \<Rightarrow> Inr (extractImageMetadata env file)
      | Some text \<Rightarrow>
          if trim text = [] then Inr (extractImageMetadata env file)
          else Inr (str ''OCR Text Content:'' @ LF @ text @ LF @ LF @ extractImageMetadata env file))"

definition entryLine :: "zipEntry \<Rightarrow> jsstring" where
  "entryLine zipEntry =
     (if \<not> dir zipEntry
      then relativePath zipEntry @ str '' ('' @
           formatFileSize (case uncompressedSize zipEntry of None \<Rightarrow> 0 | Some n \<Rightarrow> n) @ str '')''
      else relativePath zipEntry @ str '' (directory)'')"

definition convertArchiveToText :: "'j env \<Rightarrow> File \<Rightarrow> error + jsstring" where
  "convertArchiveToText env file =
     (case JSZip_loadAsync env file of
        None \<Rightarrow> Inl (Error (str ''Failed to read archive file''))
      | Some contents \<Rightarrow>
          Inr (str ''Archive Contents ('' @ name file @ str ''):'' @ LF @ separator50 @ LF @
               join LF (map entryLine contents)))"

subsection \<open>Binary files\<close>

text \<open>\<open>b.toString(16).padStart(2, '0')\<close> for a byte, and \<open>toUpperCase\<close> on hexadecimal digits.\<close>

definition hexDigit :: "nat \<Rightarrow> nat" where
  "hexDigit d = (if d < 10 then 48 + d else 87 + d)"

definition toString16 :: "byte \<Rightarrow> jsstring" where
  "toString16 b =
     (let n = unat b in if n < 16 then [hexDigit n] else [hexDigit (n div 16), hexDigit (n mod 16)])"

definition padStart2 :: "jsstring \<Rightarrow> jsstring" where
  "padStart2 s = replicate (2 - length s) 48 @ s"

definition hexByte :: "byte \<Rightarrow> jsstring" where
  "hexByte b = padStart2 (toString16 b)"

definition toUpperCaseAscii :: "jsstring \<Rightarrow> jsstring" where
  "toUpperCaseAscii s = map (\<lambda>c. if 97 \<le> c \<and> c \<le> 122 then c - 32 else c) s"

definition signatures :: "(jsstring \<times> jsstring) list" where
  "signatures =
     [(str ''89504E47'', str ''PNG Image''),
      (str ''FFD8FFE0'', str ''JPEG Image''),
      (str ''47494638'', str ''GIF Image''),
      (str ''25504446'', str ''PDF Document''),
      (str ''504B0304'', str ''ZIP Archive''),
      (str ''52617221'', str ''RAR Archive''),
      (str ''7F454C46'', str ''ELF Executable''),
      (str ''4D5A9000'', str ''Windows Executable'')]"

text \<open>
  \<open>signatures[hex] || null\<close>: \<open>hex\<close> consists of the characters \<open>0-9A-F\<close>, so the lookup
  finds an entry of the table or nothing.
\<close>

definition detectFileSignature :: "byte list \<Rightarrow> jsstring option" where
  "detectFileSignature data =
     (let hex = toUpperCaseAscii (concat (map hexByte (take 4 data)))
      in map_of signatures hex)"

text \<open>The body of the loop of \<open>extractStrings\<close>, on the pair \<open>(strings, currentString)\<close>.\<close>

definition stringsStep :: "jsstring list \<times> jsstring \<Rightarrow> byte \<Rightarrow> jsstring list \<times> jsstring" where
  "stringsStep state b =
     (let char = unat b; strings = fst state; currentString = snd state in
      if char \<ge> 32 \<and> char \<le> 126 then (strings, currentString @ [char])
      else (if length currentString \<ge> 4 then strings @ [currentString] else strings, []))"

definition extractStrings :: "byte list \<Rightarrow> jsstring list" where
  "extractStrings data =
     (let state = foldl stringsStep ([], []) data;
          strings = (if length (snd state) \<ge> 4 then fst state @ [snd state] else fst state)
      in take 100 (filter (\<lambda>s. length s \<ge> 4) strings))"

definition extractBinaryFileInfo :: "'j env \<Rightarrow> File \<Rightarrow> byte list \<Rightarrow> jsstring" where
  "extractBinaryFileInfo env file data =
     (let info =
            [str ''File: '' @ name file,
             str ''Type: '' @ (if ftype file = [] then str ''Binary file'' else ftype file),
             str ''Size: '' @ formatFileSize (fsize file),
             str ''Last Modified: '' @ toLocaleString env (lastModified file),
             [],
             str ''File Analysis:'',
             str ''- Binary file with '' @ numToString (length data) @ str '' bytes'',
             str ''- First 16 bytes (hex): '' @ join (str '' '') (map hexByte (take 16 data))];
          info1 =
            (case detectFileSignature data of
               None \<Rightarrow> info
             | Some signature \<Rightarrow> info @ [str ''- Detected format: '' @ signature]);
          strings = extractStrings data;
          info2 =
            (if length strings > 0 then
               info1 @ [[], str ''Embedded Strings:''] @ map (\<lambda>s. str ''- '' @ s) (take 20 strings) @
               (if length strings > 20
                then [str ''... and '' @ numToString (length strings - 20) @ str '' more'']
                else [])
             else info1)
      in join LF info2)"

text \<open>
  The loop \<open>for (let i = 0; i < Math.min(1000, uint8Array.length); i++)\<close> that sets
  \<open>isBinary\<close> and breaks at the first zero byte.
\<close>

function isBinaryLoop :: "byte list \<Rightarrow> nat \<Rightarrow> bool" where
  "isBinaryLoop uint8Array i =
     (if i < min 1000 (length uint8Array)
      then (if uint8Array ! i = 0 then True else isBinaryLoop uint8Array (i + 1))
      else False)"
  by pat_completeness auto
termination
  by (relation "measure (\<lambda>(uint8Array, i). min 1000 (length uint8Array) - i)") auto

declare isBinaryLoop.simps [simp del]

subsection \<open>convertFileToText\<close>

text \<open>The conditions of the dispatch, in the order of the source.\<close>

definition textRule :: "jsstring \<Rightarrow> jsstring \<Rightarrow> bool" where
  "textRule fileName fileType \<longleftrightarrow>
     startsWith fileType (str ''text/'') \<or> endsWith fileName (str ''.txt'') \<or>
     endsWith fileName (str ''.md'') \<or> endsWith fileName (str ''.csv'')"

definition jsonRule :: "jsstring \<Rightarrow> jsstring \<Rightarrow> bool" where
  "jsonRule fileName fileType \<longleftrightarrow>
     fileType = str ''application/json'' \<or> endsWith fileName (str ''.json'')"

definition xmlRule :: "jsstring \<Rightarrow> jsstring \<Rightarrow> bool" where
  "xmlRule fileName fileType \<longleftrightarrow>
     fileType = str ''application/xml'' \<or> fileType = str ''text/xml'' \<or> fileType = str ''text/html'' \<or>
     endsWith fileName (str ''.xml'') \<or> endsWith fileName (str ''.html'') \<or> endsWith fileName (str ''.htm'')"

definition scriptRule :: "jsstring \<Rightarrow> jsstring \<Rightarrow> bool" where
  "scriptRule fileName fileType \<longleftrightarrow>
     fileType = str ''application/javascript'' \<or> fileType = str ''text/javascript'' \<or>
     fileType = str ''text/css'' \<or>
     endsWith fileName (str ''.js'') \<or> endsWith fileName (str ''.css'') \<or> endsWith fileName (str ''.ts'') \<or>
     endsWith fileName (str ''.tsx'') \<or> endsWith fileName (str ''.jsx'')"

definition docxRule :: "jsstring \<Rightarrow> jsstring \<Rightarrow> bool" where
  "docxRule fileName fileType \<longleftrightarrow>
     fileType = str ''application/vnd.openxmlformats-officedocument.wordprocessingml.document'' \<or>
     endsWith fileName (str ''.docx'')"

definition excelRule :: "jsstring \<Rightarrow> jsstring \<Rightarrow> bool" where
  "excelRule fileName fileType \<longleftrightarrow>
     fileType = str ''application/vnd.openxmlformats-officedocument.spreadsheetml.sheet'' \<or>
     fileType = str ''application/vnd.ms-excel'' \<or>
     endsWith fileName (str ''.xlsx'') \<or> endsWith fileName (str ''.xls'')"

definition pdfRule :: "jsstring \<Rightarrow> jsstring \<Rightarrow> bool" where
  "pdfRule fileName fileType \<longleftrightarrow>
     fileType = str ''application/pdf'' \<or> endsWith fileName (str ''.pdf'')"

definition imageRule :: "jsstring \<Rightarrow> jsstring \<Rightarrow> bool" where
  "imageRule fileName fileType \<longleftrightarrow>
     startsWith fileType (str ''image/'') \<or> endsWith fileName (str ''.png'') \<or>
     endsWith fileName (str ''.jpg'') \<or> endsWith fileName (str ''.jpeg'') \<or>
     endsWith fileName (str ''.gif'') \<or> endsWith fileName (str ''.bmp'')"

definition archiveRule :: "jsstring \<Rightarrow> jsstring \<Rightarrow> bool" where
  "archiveRule fileName fileType \<longleftrightarrow>
     endsWith fileName (str ''.zip'') \<or> endsWith fileName (str ''.jar'')"

definition svgRule :: "jsstring \<Rightarrow> jsstring \<Rightarrow> bool" where
  "svgRule fileName fileType \<longleftrightarrow>
     fileType = str ''image/svg+xml'' \<or> endsWith fileName (str ''.svg'')"

definition logRule :: "jsstring \<Rightarrow> jsstring \<Rightarrow> bool" where
  "logRule fileName fileType \<longleftrightarrow>
     endsWith fileName (str ''.log'') \<or> endsWith fileName (str ''.cfg'') \<or> endsWith fileName (str ''.ini'')"

definition unsupported :: "jsstring \<Rightarrow> error" where
  "unsupported fileType =
     Error (str ''Unsupported file type: '' @ (if fileType = [] then str ''unknown'' else fileType))"

text \<open>
  The JSON branch: the file is read outside the \<open>try\<close>, so a failure to read it
  propagates; \<open>JSON.parse(text)\<close> and \<open>JSON.stringify(json, null, 2)\<close> are both inside the
  \<open>try\<close>, whose \<open>catch\<close> returns the text.
\<close>

definition convertJsonToText :: "'j env \<Rightarrow> File \<Rightarrow> error + jsstring" where
  "convertJsonToText env file =
     (case readTextFile env file of
        Inl e \<Rightarrow> Inl e
      | Inr text \<Rightarrow>
          (case JSON_parse env text of
             None \<Rightarrow> Inr text
           | Some json \<Rightarrow>
               (case JSON_stringify env json None 2 of
                  None \<Rightarrow> Inr text
                | Some pretty \<Rightarrow> Inr pretty)))"

text \<open>
  The last branch: every exception inside its \<open>try\<close> (reading the bytes, reading the
  text) is replaced by the error \<open>Unsupported file type\<close>.
\<close>

definition convertUnknownToText :: "'j env \<Rightarrow> File \<Rightarrow> jsstring \<Rightarrow> error + jsstring" where
  "convertUnknownToText env file fileType =
     (case arrayBuffer env file of
        None \<Rightarrow> Inl (unsupported fileType)
      | Some uint8Array \<Rightarrow>
          if isBinaryLoop uint8Array 0 then Inr (extractBinaryFileInfo env file uint8Array)
          else (case readTextFile env file of
                  Inl e \<Rightarrow> Inl (unsupported fileType)
                | Inr text \<Rightarrow> Inr text))"

text \<open>
  The \<open>console.log\<close> for a file above 10 MB has no effect on the result and is left out.
\<close>

definition convertFileToText :: "'j env \<Rightarrow> File \<Rightarrow> error + jsstring" where
  "convertFileToText env file =
     (let fileName = toLowerCase env (name file);
          fileType = toLowerCase env (ftype file)
      in
        if textRule fileName fileType then readTextFile env file
        else if jsonRule fileName fileType then convertJsonToText env file
        else if xmlRule fileName fileType then readTextFile env file
        else if scriptRule fileName fileType then readTextFile env file
        else if docxRule fileName fileType then convertDocxToText env file
        else if excelRule fileName fileType then convertExcelToText env file
        else if pdfRule fileName fileType then convertPdfToText env file
        else if imageRule fileName fileType then convertImageToText env file
        else if archiveRule fileName fileType then convertArchiveToText env file
        else if svgRule fileName fileType then readTextFile env file
        else if logRule fileName fileType then readTextFile env file
        else convertUnknownToText env file fileType)"

section \<open>Notions used to state the properties\<close>

text \<open>
  The position of the first occurrence of \<open>x\<close> in \<open>xs\<close> (the length of \<open>xs\<close> when there is
  none); a word that passes the filters of \<open>extractKeywords\<close>; and the ranking of two
  words of a token list: the more frequent one first, and of two equally frequent ones
  the one that occurs first.
\<close>

definition firstPos :: "'a list \<Rightarrow> 'a \<Rightarrow> nat" where
  "firstPos xs x = length (takeWhile (\<lambda>y. y \<noteq> x) xs)"

definition isCandidate :: "jsstring \<Rightarrow> bool" where
  "isCandidate word \<longleftrightarrow> word \<notin> set stopWords \<and> length word > 3"

definition ranksBefore :: "jsstring list \<Rightarrow> jsstring \<Rightarrow> jsstring \<Rightarrow> bool" where
  "ranksBefore ws a b \<longleftrightarrow>
     count_list ws a > count_list ws b \<or>
     (count_list ws a = count_list ws b \<and> firstPos ws a < firstPos ws b)"

text \<open>
  The invariant of the counting loop after the words \<open>ws\<close>: the keys are distinct, they are
  the candidates among \<open>ws\<close>, each with its number of occurrences, in the order of their
  first occurrences.
\<close>

definition countInv :: "jsstring list \<Rightarrow> (jsstring \<times> nat) list \<Rightarrow> bool" where
  "countInv ws m \<longleftrightarrow>
     distinct (map fst m) \<and>
     (\<forall>k \<in> set ws. isCandidate k \<longrightarrow> k \<in> fst ` set m) \<and>
     (\<forall>e \<in> set m. isCandidate (fst e) \<and> fst e \<in> set ws \<and> snd e = count_list ws (fst e)) \<and>
     sorted_wrt (\<lambda>a b. firstPos ws (fst a) < firstPos ws (fst b)) m"

text \<open>
  The branch of \<open>convertFileToText\<close> that a file name and type (both lower-cased) select:
  the first condition of the chain that holds.
\<close>

datatype strategy =
  TextFile | JsonFile | XmlFile | ScriptFile | WordFile | ExcelFile | PdfFile | ImageFile
  | ArchiveFile | SvgFile | LogFile | UnknownFile

definition strategy :: "jsstring \<Rightarrow> jsstring \<Rightarrow> strategy" where
  "strategy fileName fileType =
     (if textRule fileName fileType then TextFile
      else if jsonRule fileName fileType then JsonFile
      else if xmlRule fileName fileType then XmlFile
      else if scriptRule fileName fileType then ScriptFile
      else if docxRule fileName fileType then WordFile
      else if excelRule fileName fileType then ExcelFile
      else if pdfRule fileName fileType then PdfFile
      else if imageRule fileName fileType then ImageFile
      else if archiveRule fileName fileType then ArchiveFile
      else if svgRule fileName fileType then SvgFile
      else if logRule fileName fileType then LogFile
      else UnknownFile)"

definition strategyOf :: "'j env \<Rightarrow> File \<Rightarrow> strategy" where
  "strategyOf env file = strategy (toLowerCase env (name file)) (toLowerCase env (ftype file))"

text \<open>
  A sample world: the file reads as the text \<open>[1,2\<close> and as nine bytes, and every library
  call throws. Sample files have 2048 bytes.
\<close>

definition demoEnv :: "nat list env" where
  "demoEnv =
     \<lparr>toLowerCase = toLowerCaseAscii,
      readAsText = (\<lambda>f. Some (str ''[1,2'')),
      arrayBuffer = (\<lambda>f. Some [0x4D, 0x5A, 0x90, 0x00, 0x48, 0x65, 0x6C, 0x6C, 0x6F]),
      JSON_parse = (\<lambda>s. None),
      JSON_stringify = (\<lambda>j replacer space. None),
      mammoth_extractRawText = (\<lambda>b. None),
      XLSX_sheets = (\<lambda>b. None),
      pdf_pages = (\<lambda>b. None),
      Tesseract_recognize = (\<lambda>f. None),
      getImageDimensions = (\<lambda>f. None),
      JSZip_loadAsync = (\<lambda>f. None),
      toLocaleString = (\<lambda>t. str ''1/1/2024, 12:00:00 AM'')\<rparr>"

definition sampleFile :: "string \<Rightarrow> string \<Rightarrow> File" where
  "sampleFile n t = \<lparr>name = str n, ftype = str t, fsize = 2048, lastModified = 1704067200000\<rparr>"




definition textEnv :: "nat list env" where
  "textEnv = demoEnv \<lparr>arrayBuffer := (\<lambda>f. Some [0x5B, 0x31, 0x2C, 0x32])\<rparr>"

text \<open>A sample text with more than eight candidate words.\<close>

definition sampleText :: jsstring where
  "sampleText = str ''Keyword extraction counts words; words that repeat rank first. Punctuation, digits and SHORT words are dropped. Repeat: extraction ranks frequent tokens above rare tokens!''"

section \<open>Properties of the summary\<close>

lemma length_trim_le: "length (trim s) \<le> length s"
proof -
  have "length (trim s) \<le> length (rev (dropWhile isSpace s))"
    unfolding trim_def using length_dropWhile_le [of isSpace "rev (dropWhile isSpace s)"] by simp
  also have "\<dots> \<le> length s"
    using length_dropWhile_le [of isSpace s] by simp
  finally show ?thesis .
qed

lemma join_eq_Nil_iff: "join sep xs = [] \<longleftrightarrow> xs = [] \<or> (\<forall>x \<in> set xs. x = []) \<and> (sep = [] \<or> length xs \<le> 1)"
  by (induction sep xs rule: join.induct) auto

lemma sentences_nonempty: "s \<in> set (sentences text) \<Longrightarrow> s \<noteq> []"
  using length_trim_le [of s] by (auto simp: sentences_def)

lemma firstSentences_Nil_iff: "firstSentences text = [] \<longleftrightarrow> sentences text = []"
proof
  assume e: "firstSentences text = []"
  show "sentences text = []"
  proof (cases "sentences text")
    case Nil
    then show ?thesis .
  next
    case (Cons x xs)
    then have "x \<in> set (sentences text)" "x \<in> set (take 3 (sentences text))" by simp_all
    with e sentences_nonempty [of x "text"] show ?thesis
      by (auto simp: firstSentences_def join_eq_Nil_iff Cons)
  qed
next
  assume "sentences text = []"
  then show "firstSentences text = []" by (simp add: firstSentences_def)
qed

lemma length_placeholder: "length placeholder = 85"
  by (simp add: placeholder_def str_def)

text \<open>
  C3. For every text the summary has at most 203 characters and is not empty; when no
  segment has a trimmed length above 10 the placeholder sentence is returned; the
  three-character ellipsis is appended exactly when the joined first three sentences
  have more than 200 characters, after cutting them to 200; otherwise the joined
  sentences are returned as they are.
\<close>

theorem generateSummary_bounded_nonempty:
  "length (generateSummary text) \<le> 203 \<and> generateSummary text \<noteq> []
   \<and> ((\<forall>s \<in> set (split isSentenceEnd text). \<not> length (trim s) > 10) \<longrightarrow> generateSummary text = placeholder)
   \<and> (length (firstSentences text) > 200 \<longrightarrow>
        generateSummary text = take 200 (firstSentences text) @ str ''...'' \<and> length (generateSummary text) = 203)
   \<and> (length (firstSentences text) \<le> 200 \<and> sentences text \<noteq> [] \<longrightarrow> generateSummary text = firstSentences text)
   \<and> placeholder \<noteq> []"
proof -
  have p: "placeholder \<noteq> []" using length_placeholder by auto
  have a: "length (generateSummary text) \<le> 203"
    by (simp add: generateSummary_def length_placeholder str_def)
  have b: "generateSummary text \<noteq> []"
    using p by (simp add: generateSummary_def str_def)
  have c: "(\<forall>s \<in> set (split isSentenceEnd text). \<not> length (trim s) > 10) \<longrightarrow> generateSummary text = placeholder"
  proof
    assume "\<forall>s \<in> set (split isSentenceEnd text). \<not> length (trim s) > 10"
    then have "sentences text = []" by (auto simp: sentences_def filter_empty_conv)
    then show "generateSummary text = placeholder"
      by (simp add: generateSummary_def firstSentences_def)
  qed
  have d: "length (firstSentences text) > 200 \<longrightarrow>
        generateSummary text = take 200 (firstSentences text) @ str ''...'' \<and> length (generateSummary text) = 203"
    by (simp add: generateSummary_def str_def)
  have e: "length (firstSentences text) \<le> 200 \<and> sentences text \<noteq> [] \<longrightarrow> generateSummary text = firstSentences text"
    by (simp add: generateSummary_def firstSentences_Nil_iff)
  from a b c d e p show ?thesis by blast
qed

theorem generateSummary_bounded_nonempty_witness:
  "generateSummary (str '''') = placeholder
   \<and> generateSummary (str ''Hello brave new world. Ok. This is the second one!'')
       = str ''Hello brave new world.  This is the second one''
   \<and> length (generateSummary (str ''The quick brown fox jumps over the lazy dog and keeps running through the forest until the night falls and the moon rises over the hills while the river flows quietly past the old mill and the sleeping village beyond it. Short. Another sentence follows here!'')) = 203"
proof -
  have h1: "\<forall>s\<in>set (split isSentenceEnd (str '''')). \<not> length (trim s) > 10"
    by (simp add: split_def str_def trim_def)
  have h2: "length (firstSentences (str ''Hello brave new world. Ok. This is the second one!'')) \<le> 200
      \<and> sentences (str ''Hello brave new world. Ok. This is the second one!'') \<noteq> []"
    by (simp add: firstSentences_def sentences_def split_def str_def trim_def isSentenceEnd_def isSpace_def)
  have e2: "firstSentences (str ''Hello brave new world. Ok. This is the second one!'')
      = str ''Hello brave new world.  This is the second one''"
    by (simp add: firstSentences_def sentences_def split_def str_def trim_def isSentenceEnd_def isSpace_def)
  have h3: "length (firstSentences (str ''The quick brown fox jumps over the lazy dog and keeps running through the forest until the night falls and the moon rises over the hills while the river flows quietly past the old mill and the sleeping village beyond it. Short. Another sentence follows here!'')) > 200"
    by (simp add: firstSentences_def sentences_def split_def str_def trim_def isSentenceEnd_def isSpace_def)
  from h1 generateSummary_bounded_nonempty [of "str ''''"]
  have a: "generateSummary (str '''') = placeholder" by blast
  from h2 e2 generateSummary_bounded_nonempty [of "str ''Hello brave new world. Ok. This is the second one!''"]
  have b: "generateSummary (str ''Hello brave new world. Ok. This is the second one!'')
       = str ''Hello brave new world.  This is the second one''" by simp
  from h3 generateSummary_bounded_nonempty [of "str ''The quick brown fox jumps over the lazy dog and keeps running through the forest until the night falls and the moon rises over the hills while the river flows quietly past the old mill and the sleeping village beyond it. Short. Another sentence follows here!''"]
  have c: "length (generateSummary (str ''The quick brown fox jumps over the lazy dog and keeps running through the forest until the night falls and the moon rises over the hills while the river flows quietly past the old mill and the sleeping village beyond it. Short. Another sentence follows here!'')) = 203" by blast
  from a b c show ?thesis by blast
qed

section \<open>Properties of the keyword extraction\<close>

lemma firstPos_append: "x \<in> set xs \<Longrightarrow> firstPos (xs @ ys) x = firstPos xs x"
  by (simp add: firstPos_def takeWhile_append1)

lemma firstPos_less: "x \<in> set xs \<Longrightarrow> firstPos xs x < length xs"
  unfolding firstPos_def by (induction xs) auto

lemma firstPos_new: "x \<notin> set xs \<Longrightarrow> firstPos (xs @ [x]) x = length xs"
  unfolding firstPos_def by (induction xs) auto

lemma mapGet_map_of: "mapGet m k = map_of m k"
  by (induction m) auto

lemma mapSet_new: "k \<notin> fst ` set m \<Longrightarrow> mapSet m k v = m @ [(k, v)]"
  by (induction m) auto

lemma mapSet_old:
  "distinct (map fst m) \<Longrightarrow> k \<in> fst ` set m \<Longrightarrow>
   mapSet m k v = map (\<lambda>e. if fst e = k then (k, v) else e) m"
proof (induction m)
  case Nil
  then show ?case by simp
next
  case (Cons a m)
  show ?case
  proof (cases "fst a = k")
    case True
    with Cons.prems have "k \<notin> fst ` set m" by auto
    then have "map (\<lambda>e. if fst e = k then (k, v) else e) m = m"
      by (intro map_idI) force
    with True show ?thesis by (cases a) simp
  next
    case False
    with Cons show ?thesis by (cases a) auto
  qed
qed

lemma countInv_Nil: "countInv [] []"
  by (simp add: countInv_def)

lemma countInv_sorted_snoc:
  assumes "countInv ws m"
  shows "sorted_wrt (\<lambda>a b. firstPos (ws @ [w]) (fst a) < firstPos (ws @ [w]) (fst b)) m"
proof (rule sorted_wrt_mono_rel)
  show "sorted_wrt (\<lambda>a b. firstPos ws (fst a) < firstPos ws (fst b)) m"
    using assms by (simp add: countInv_def)
next
  fix x y
  assume "x \<in> set m" "y \<in> set m" "firstPos ws (fst x) < firstPos ws (fst y)"
  moreover from this assms have "fst x \<in> set ws" "fst y \<in> set ws" by (auto simp: countInv_def)
  ultimately show "firstPos (ws @ [w]) (fst x) < firstPos (ws @ [w]) (fst y)"
    by (simp add: firstPos_append)
qed

lemma countInv_skip:
  assumes "countInv ws m" "\<not> isCandidate w"
  shows "countInv (ws @ [w]) m"
proof -
  have ne: "fst e \<noteq> w" if "e \<in> set m" for e
    using assms that by (auto simp: countInv_def)
  have "sorted_wrt (\<lambda>a b. firstPos (ws @ [w]) (fst a) < firstPos (ws @ [w]) (fst b)) m"
    using countInv_sorted_snoc [OF assms(1)] .
  with assms ne show ?thesis
    unfolding countInv_def by auto
qed

lemma countInv_old:
  assumes "countInv ws m" "isCandidate w" "w \<in> fst ` set m"
  shows "countInv (ws @ [w]) (mapSet m w ((case mapGet m w of None \<Rightarrow> 0 | Some n \<Rightarrow> n) + 1))"
proof -
  let ?v = "(case mapGet m w of None \<Rightarrow> 0 | Some n \<Rightarrow> n) + 1"
  let ?f = "\<lambda>e. if fst e = w then (w, ?v) else e"
  from assms have d: "distinct (map fst m)" by (simp add: countInv_def)
  have eq: "mapSet m w ?v = map ?f m" using mapSet_old [OF d assms(3)] .
  have keys: "map fst (map ?f m) = map fst m" by (simp add: comp_def cong: map_cong)
  obtain n where n: "(w, n) \<in> set m" using assms(3) by auto
  with d have "map_of m w = Some n" by simp
  then have v: "?v = n + 1" by (simp add: mapGet_map_of)
  from n assms(1) have cn: "n = count_list ws w" "w \<in> set ws" by (auto simp: countInv_def)
  have s: "sorted_wrt (\<lambda>a b. firstPos (ws @ [w]) (fst a) < firstPos (ws @ [w]) (fst b)) (map ?f m)"
  proof -
    have "sorted_wrt (\<lambda>a b. firstPos (ws @ [w]) (fst a) < firstPos (ws @ [w]) (fst b)) m"
      using countInv_sorted_snoc [OF assms(1)] .
    then have "sorted_wrt (\<lambda>a b. firstPos (ws @ [w]) (fst (?f a)) < firstPos (ws @ [w]) (fst (?f b))) m"
      by (rule sorted_wrt_mono_rel [rotated]) auto
    then show ?thesis by (simp only: sorted_wrt_map)
  qed
  have c: "\<forall>e \<in> set (map ?f m). isCandidate (fst e) \<and> fst e \<in> set (ws @ [w]) \<and> snd e = count_list (ws @ [w]) (fst e)"
    using assms(1,2) cn v by (auto simp: countInv_def)
  have k: "\<forall>k \<in> set (ws @ [w]). isCandidate k \<longrightarrow> k \<in> fst ` set (map ?f m)"
  proof -
    have "fst ` set (map ?f m) = fst ` set m" using keys by (metis list.set_map)
    with assms show ?thesis by (auto simp: countInv_def)
  qed
  have d': "distinct (map fst (map ?f m))" using d by (simp only: keys)
  from conjI [OF d' conjI [OF k conjI [OF c s]]] show ?thesis unfolding eq countInv_def .
qed

lemma countInv_new:
  assumes "countInv ws m" "isCandidate w" "w \<notin> fst ` set m"
  shows "countInv (ws @ [w]) (mapSet m w ((case mapGet m w of None \<Rightarrow> 0 | Some n \<Rightarrow> n) + 1))"
proof -
  from assms have nin: "w \<notin> set ws" by (auto simp: countInv_def)
  from assms(3) have "map_of m w = None" by (simp add: map_of_eq_None_iff)
  then have v: "(case mapGet m w of None \<Rightarrow> 0 | Some n \<Rightarrow> n) + 1 = (1::nat)" by (simp add: mapGet_map_of)
  have eq: "mapSet m w 1 = m @ [(w, 1)]" using mapSet_new [OF assms(3)] .
  have s0: "sorted_wrt (\<lambda>a b. firstPos (ws @ [w]) (fst a) < firstPos (ws @ [w]) (fst b)) m"
    using countInv_sorted_snoc [OF assms(1)] .
  have last: "firstPos (ws @ [w]) (fst e) < firstPos (ws @ [w]) w" if "e \<in> set m" for e
  proof -
    from that assms(1) have "fst e \<in> set ws" by (auto simp: countInv_def)
    then show ?thesis using nin by (simp add: firstPos_append firstPos_new firstPos_less)
  qed
  have s: "sorted_wrt (\<lambda>a b. firstPos (ws @ [w]) (fst a) < firstPos (ws @ [w]) (fst b)) (m @ [(w, 1)])"
    using s0 last by (simp add: sorted_wrt_append)
  have c: "\<forall>e \<in> set (m @ [(w, 1)]). isCandidate (fst e) \<and> fst e \<in> set (ws @ [w]) \<and> snd e = count_list (ws @ [w]) (fst e)"
    using assms(1,2) nin by (auto simp: countInv_def)
  have d: "distinct (map fst (m @ [(w, 1)]))" using assms by (auto simp: countInv_def)
  have k: "\<forall>k \<in> set (ws @ [w]). isCandidate k \<longrightarrow> k \<in> fst ` set (m @ [(w, 1)])"
    using assms by (auto simp: countInv_def)
  from conjI [OF d conjI [OF k conjI [OF c s]]] show ?thesis unfolding v eq countInv_def .
qed

lemma countInv_step: "countInv ws m \<Longrightarrow> countInv (ws @ [w]) (countWord m w)"
  using countInv_skip [of ws m w] countInv_old [of ws m w] countInv_new [of ws m w]
  by (auto simp: countWord_def isCandidate_def)

lemma countInv_wordCounts: "countInv ws (wordCounts ws)"
  unfolding wordCounts_def
  by (induction ws rule: rev_induct) (simp_all add: countInv_Nil countInv_step)


lemma insort_key_lex:
  fixes f :: "'a \<Rightarrow> int" and g :: "'a \<Rightarrow> nat"
  assumes "sorted_wrt (\<lambda>a b. f a < f b \<or> (f a = f b \<and> g a < g b)) ys"
    and "\<forall>y \<in> set ys. g x < g y"
  shows "sorted_wrt (\<lambda>a b. f a < f b \<or> (f a = f b \<and> g a < g b)) (insort_key f x ys)"
  using assms by (induction ys) (auto simp: set_insort_key)

lemma sort_key_lex:
  fixes f :: "'a \<Rightarrow> int" and g :: "'a \<Rightarrow> nat"
  assumes "sorted_wrt (\<lambda>a b. g a < g b) xs"
  shows "sorted_wrt (\<lambda>a b. f a < f b \<or> (f a = f b \<and> g a < g b)) (sort_key f xs)"
  using assms by (induction xs) (auto intro: insort_key_lex)

lemma count_list_filter: "count_list (filter Q xs) a = (if Q a then count_list xs a else 0)"
  by (induction xs) auto

lemma firstPos_Cons: "firstPos (x # xs) a = (if x = a then 0 else Suc (firstPos xs a))"
  by (simp add: firstPos_def)

lemma firstPos_filter:
  "Q a \<Longrightarrow> Q b \<Longrightarrow> a \<in> set xs \<Longrightarrow> b \<in> set xs \<Longrightarrow>
   firstPos (filter Q xs) a < firstPos (filter Q xs) b \<longleftrightarrow> firstPos xs a < firstPos xs b"
proof (induction xs)
  case Nil
  then show ?case by simp
next
  case (Cons x xs)
  show ?case
  proof (cases "x = a \<or> x = b")
    case True
    with Cons.prems show ?thesis by (auto simp: firstPos_Cons)
  next
    case False
    with Cons show ?thesis by (auto simp: firstPos_Cons)
  qed
qed

lemma ranksBefore_filter:
  "Q a \<Longrightarrow> Q b \<Longrightarrow> a \<in> set xs \<Longrightarrow> b \<in> set xs \<Longrightarrow>
   ranksBefore (filter Q xs) a b \<longleftrightarrow> ranksBefore xs a b"
  by (simp add: ranksBefore_def count_list_filter firstPos_filter)

lemma sorted_entries:
  "sorted_wrt (\<lambda>a b. ranksBefore ws (fst a) (fst b)) (sortByCountDesc (wordCounts ws))"
proof -
  let ?E = "wordCounts ws"
  let ?f = "\<lambda>e :: jsstring \<times> nat. - int (snd e)"
  let ?g = "\<lambda>e :: jsstring \<times> nat. firstPos ws (fst e)"
  have inv: "countInv ws ?E" by (rule countInv_wordCounts)
  then have "sorted_wrt (\<lambda>a b. ?g a < ?g b) ?E" by (simp add: countInv_def)
  then have lex: "sorted_wrt (\<lambda>a b. ?f a < ?f b \<or> (?f a = ?f b \<and> ?g a < ?g b)) (sort_key ?f ?E)"
    by (rule sort_key_lex)
  show ?thesis
    unfolding sortByCountDesc_def
  proof (rule sorted_wrt_mono_rel [OF _ lex])
    fix x y
    assume "x \<in> set (sort_key ?f ?E)" "y \<in> set (sort_key ?f ?E)"
      and r: "?f x < ?f y \<or> (?f x = ?f y \<and> ?g x < ?g y)"
    with inv have "snd x = count_list ws (fst x)" "snd y = count_list ws (fst y)"
      by (auto simp: countInv_def)
    with r show "ranksBefore ws (fst x) (fst y)" by (auto simp: ranksBefore_def)
  qed
qed

lemma keys_sorted_entries:
  shows "set (map fst (sortByCountDesc (wordCounts ws))) = {k \<in> set ws. isCandidate k}"
    and "distinct (map fst (sortByCountDesc (wordCounts ws)))"
proof -
  have inv: "countInv ws (wordCounts ws)" by (rule countInv_wordCounts)
  then show "set (map fst (sortByCountDesc (wordCounts ws))) = {k \<in> set ws. isCandidate k}"
    by (auto simp: sortByCountDesc_def countInv_def)
  from inv have "distinct (map fst (wordCounts ws))" by (simp add: countInv_def)
  then show "distinct (map fst (sortByCountDesc (wordCounts ws)))"
    by (simp add: sortByCountDesc_def distinct_map)
qed

lemma keywordWords_candidates:
  "{k \<in> set (keywordWords lc text). isCandidate k} = {k \<in> set (tokens lc text). isCandidate k}"
  by (auto simp: keywordWords_def isCandidate_def)

text \<open>
  C2. For every text (and every lower-casing function) \<open>extractKeywords\<close> returns at most
  8 entries, all different; every entry is a token of the lower-cased,
  punctuation-stripped text, has more than 3 characters and is not a stop word; the
  entries are in ranking order: descending number of occurrences among the tokens,
  and among equally frequent entries the one first encountered comes first; and a token
  that passes the filters and is not returned ranks after each of the 8 returned ones.
\<close>

theorem extractKeywords_ranked:
  "length (extractKeywords lc text) \<le> 8
   \<and> distinct (extractKeywords lc text)
   \<and> (\<forall>w \<in> set (extractKeywords lc text).
         length w > 3 \<and> w \<notin> set stopWords \<and> w \<in> set (tokens lc text))
   \<and> sorted_wrt (ranksBefore (tokens lc text)) (extractKeywords lc text)
   \<and> (\<forall>w \<in> set (tokens lc text).
         length w > 3 \<and> w \<notin> set stopWords \<and> w \<notin> set (extractKeywords lc text) \<longrightarrow>
         length (extractKeywords lc text) = 8 \<and>
         (\<forall>r \<in> set (extractKeywords lc text). ranksBefore (tokens lc text) r w))"
proof -
  let ?toks = "tokens lc text"
  let ?Q = "\<lambda>word :: jsstring. length word > 3"
  let ?ws = "keywordWords lc text"
  let ?S = "sortByCountDesc (wordCounts ?ws)"
  let ?r = "extractKeywords lc text"
  have ws: "?ws = filter ?Q ?toks" by (simp add: keywordWords_def)
  have r: "?r = take 8 (map fst ?S)" by (simp add: extractKeywords_def take_map)
  have keys: "set (map fst ?S) = {k \<in> set ?toks. isCandidate k}"
    using keys_sorted_entries(1) [of ?ws] keywordWords_candidates [of lc "text"] by simp
  have dist: "distinct (map fst ?S)" by (rule keys_sorted_entries(2))
  have sub: "set ?r \<subseteq> set (map fst ?S)" unfolding r by (rule set_take_subset)
  have tr: "ranksBefore ?toks a b" if "a \<in> set (map fst ?S)" "b \<in> set (map fst ?S)" "ranksBefore ?ws a b" for a b
  proof -
    from that keys have "?Q a" "?Q b" "a \<in> set ?toks" "b \<in> set ?toks"
      by (auto simp: isCandidate_def)
    with that(3) show ?thesis unfolding ws by (simp add: ranksBefore_filter)
  qed
  have "sorted_wrt (ranksBefore ?ws) (map fst ?S)"
    using sorted_entries [of ?ws] by (simp add: sorted_wrt_map)
  then have sorted: "sorted_wrt (ranksBefore ?toks) (map fst ?S)"
    by (rule sorted_wrt_mono_rel [rotated]) (rule tr)
  have c1: "length ?r \<le> 8" unfolding r by simp
  have c2: "distinct ?r" unfolding r using dist by (rule distinct_take)
  have c3: "\<forall>w \<in> set ?r. length w > 3 \<and> w \<notin> set stopWords \<and> w \<in> set ?toks"
    using sub keys by (auto simp: isCandidate_def)
  have c4: "sorted_wrt (ranksBefore ?toks) ?r"
    unfolding r using sorted by (rule sorted_wrt_take)
  have c5: "\<forall>w \<in> set ?toks. length w > 3 \<and> w \<notin> set stopWords \<and> w \<notin> set ?r \<longrightarrow>
         length ?r = 8 \<and> (\<forall>x \<in> set ?r. ranksBefore ?toks x w)"
  proof (intro ballI impI)
    fix w
    assume "w \<in> set ?toks" and w: "length w > 3 \<and> w \<notin> set stopWords \<and> w \<notin> set ?r"
    then have "w \<in> set (map fst ?S)" using keys by (auto simp: isCandidate_def)
    moreover have "set (map fst ?S) = set (take 8 (map fst ?S)) \<union> set (drop 8 (map fst ?S))"
      by (metis append_take_drop_id set_append)
    ultimately have "w \<in> set (take 8 (map fst ?S)) \<union> set (drop 8 (map fst ?S))" by blast
    with w have d: "w \<in> set (drop 8 (map fst ?S))" unfolding r by blast
    then have "drop 8 (map fst ?S) \<noteq> []" by auto
    then have len: "length ?r = 8" unfolding r by simp
    have "sorted_wrt (ranksBefore ?toks) (take 8 (map fst ?S) @ drop 8 (map fst ?S))"
      using sorted by simp
    then have "\<forall>x \<in> set (take 8 (map fst ?S)). \<forall>y \<in> set (drop 8 (map fst ?S)). ranksBefore ?toks x y"
      by (simp only: sorted_wrt_append) blast
    with d have "\<forall>x \<in> set ?r. ranksBefore ?toks x w" unfolding r by blast
    with len show "length ?r = 8 \<and> (\<forall>x \<in> set ?r. ranksBefore ?toks x w)" by blast
  qed
  from c1 c2 c3 c4 c5 show ?thesis by blast
qed

lemma sampleText_tokens:
  "tokens toLowerCaseAscii sampleText = map str
     [''keyword'', ''extraction'', ''counts'', ''words'', ''words'', ''that'',
      ''repeat'', ''rank'', ''first'', ''punctuation'', ''digits'', ''and'',
      ''short'', ''words'', ''are'', ''dropped'', ''repeat'', ''extraction'',
      ''ranks'', ''frequent'', ''tokens'', ''above'', ''rare'', ''tokens'', '''']"
  by (simp add: sampleText_def tokens_def stripPunctuation_def toLowerCaseAscii_def split_def
      str_def isSpace_def isWordChar_def)

lemma sampleText_keywords:
  "extractKeywords toLowerCaseAscii sampleText = map str
     [''words'', ''extraction'', ''repeat'', ''tokens'', ''keyword'', ''counts'', ''rank'', ''punctuation'']"
  unfolding extractKeywords_def keywordWords_def sampleText_tokens
  by (simp add: sortByCountDesc_def wordCounts_def countWord_def str_def stopWords_def)

theorem extractKeywords_ranked_witness:
  "extractKeywords toLowerCaseAscii sampleText = map str
     [''words'', ''extraction'', ''repeat'', ''tokens'', ''keyword'', ''counts'', ''rank'', ''punctuation'']
   \<and> length (extractKeywords toLowerCaseAscii sampleText) = 8
   \<and> length (str ''words'') > 3 \<and> str ''words'' \<notin> set stopWords
   \<and> ranksBefore (tokens toLowerCaseAscii sampleText) (str ''punctuation'') (str ''digits'')"
proof -
  note t = extractKeywords_ranked [of toLowerCaseAscii sampleText]
  have a: "str ''words'' \<in> set (extractKeywords toLowerCaseAscii sampleText)"
    unfolding sampleText_keywords by simp
  have b: "str ''digits'' \<in> set (tokens toLowerCaseAscii sampleText)"
    unfolding sampleText_tokens by simp
  have c: "length (str ''digits'') > 3 \<and> str ''digits'' \<notin> set stopWords
      \<and> str ''digits'' \<notin> set (extractKeywords toLowerCaseAscii sampleText)"
    unfolding sampleText_keywords by (simp add: str_def stopWords_def)
  have d: "str ''punctuation'' \<in> set (extractKeywords toLowerCaseAscii sampleText)"
    unfolding sampleText_keywords by simp
  from t a have "length (str ''words'') > 3 \<and> str ''words'' \<notin> set stopWords" by blast
  moreover from t b c d have "length (extractKeywords toLowerCaseAscii sampleText) = 8
      \<and> ranksBefore (tokens toLowerCaseAscii sampleText) (str ''punctuation'') (str ''digits'')" by blast
  ultimately show ?thesis using sampleText_keywords by simp
qed

section \<open>Properties of the sentiment and language heuristics\<close>

text \<open>
  C7. On the text \<open>I love this great product. It works perfectly.\<close> the sentiment
  heuristic returns positive: of the lower-cased tokens between the runs of non-word
  characters exactly two, \<open>love\<close> and \<open>great\<close>, are in the positive-word list, and none is
  in the negative-word list.
\<close>

theorem analyzeSentiment_example:
  "analyzeSentiment toLowerCaseAscii (str ''I love this great product. It works perfectly.'') = Positive
   \<and> sentimentCounts toLowerCaseAscii (str ''I love this great product. It works perfectly.'') = (2, 0)
   \<and> filter (\<lambda>w. w \<in> set positiveWords)
        (splitNonWord toLowerCaseAscii (str ''I love this great product. It works perfectly.''))
      = [str ''love'', str ''great'']
   \<and> filter (\<lambda>w. w \<in> set negativeWords)
        (splitNonWord toLowerCaseAscii (str ''I love this great product. It works perfectly.'')) = []"
  by (simp add: analyzeSentiment_def sentimentCounts_def sentimentStep_def splitNonWord_def split_def
      toLowerCaseAscii_def str_def isWordChar_def positiveWords_def negativeWords_def)

text \<open>
  C9. \<open>detectLanguage\<close> never returns \<open>Unknown\<close>: for every text (and every lower-casing
  function) the result is one of \<open>English\<close>, \<open>Spanish\<close> and \<open>French\<close>; when the three scores
  are zero it is \<open>English\<close>, and that is the case of the empty text.
\<close>

theorem detectLanguage_never_unknown:
  "detectLanguage lc text \<noteq> str ''Unknown''
   \<and> detectLanguage lc text \<in> {str ''English'', str ''Spanish'', str ''French''}
   \<and> (languageScores lc text = (0, 0, 0) \<longrightarrow> detectLanguage lc text = str ''English'')
   \<and> (lc [] = [] \<longrightarrow> languageScores lc [] = (0, 0, 0) \<and> detectLanguage lc [] = str ''English'')"
proof -
  have e: "languageScores lc [] = (0, 0, 0)" if "lc [] = []"
    using that by (simp add: languageScores_def splitNonWord_def split_def languageStep_def
        commonEnglishWords_def commonSpanishWords_def commonFrenchWords_def str_def)
  have a: "detectLanguage lc text \<noteq> str ''Unknown''"
    by (auto simp: detectLanguage_def str_def split: prod.splits)
  have b: "detectLanguage lc text \<in> {str ''English'', str ''Spanish'', str ''French''}"
    by (auto simp: detectLanguage_def split: prod.splits)
  have c: "languageScores lc t = (0, 0, 0) \<longrightarrow> detectLanguage lc t = str ''English''" for t
    by (simp add: detectLanguage_def)
  from a b c [of "text"] c [of "[]"] e show ?thesis by blast
qed

theorem detectLanguage_never_unknown_witness:
  "languageScores toLowerCaseAscii [] = (0, 0, 0) \<and> detectLanguage toLowerCaseAscii [] = str ''English''
   \<and> detectLanguage toLowerCaseAscii [] \<noteq> str ''Unknown''"
proof -
  have "toLowerCaseAscii [] = []" by (simp add: toLowerCaseAscii_def)
  with detectLanguage_never_unknown [of toLowerCaseAscii "[]"] show ?thesis by blast
qed

section \<open>Properties of the size formatting\<close>

subsection \<open>Rounding to a double is monotone and keeps the doubles\<close>

lemma roundHalfEven_bounds: "\<lfloor>z\<rfloor> \<le> roundHalfEven z \<and> roundHalfEven z \<le> \<lfloor>z\<rfloor> + 1"
  by (simp add: roundHalfEven_def Let_def)

lemma roundHalfEven_of_int [simp]: "roundHalfEven (of_int n) = n"
  by (simp add: roundHalfEven_def)

lemma roundHalfEven_mono:
  assumes "z \<le> w"
  shows "roundHalfEven z \<le> roundHalfEven w"
proof (cases "\<lfloor>z\<rfloor> = \<lfloor>w\<rfloor>")
  case True
  with assms show ?thesis by (auto simp: roundHalfEven_def Let_def)
next
  case False
  with assms have "\<lfloor>z\<rfloor> + 1 \<le> \<lfloor>w\<rfloor>" using floor_mono [OF assms] by linarith
  with roundHalfEven_bounds [of z] roundHalfEven_bounds [of w] show ?thesis by linarith
qed

lemma ulp_pos: "0 < ulp x"
  by (simp add: ulp_def)

lemma binade:
  assumes "0 < x"
  shows "2 powr of_int \<lfloor>log 2 x\<rfloor> \<le> x" "x < 2 powr (of_int \<lfloor>log 2 x\<rfloor> + 1)"
  using assms floor_log_eq_powr_iff [of x 2 "\<lfloor>log 2 x\<rfloor>"] by simp_all

lemma scaled_range:
  assumes "0 < x"
  shows "2 ^ 52 \<le> x / ulp x" "x / ulp x < 2 ^ 53"
proof -
  let ?e = "of_int \<lfloor>log 2 x\<rfloor> :: real"
  have u: "ulp x = 2 powr (?e - 52)" using assms by (simp add: ulp_def)
  have a: "2 powr ?e = 2 ^ 52 * ulp x"
    unfolding u by (simp add: powr_diff)
  have b: "2 powr (?e + 1) = 2 ^ 53 * ulp x"
    unfolding u by (simp add: powr_diff powr_add)
  from binade(1) [OF assms] a have "2 ^ 52 * ulp x \<le> x" by simp
  then show "2 ^ 52 \<le> x / ulp x" using ulp_pos [of x] by (simp add: pos_le_divide_eq)
  from binade(2) [OF assms] b have "x < 2 ^ 53 * ulp x" by simp
  then show "x / ulp x < 2 ^ 53" using ulp_pos [of x] by (simp add: pos_divide_less_eq)
qed

lemma roundToDouble_pos_eq:
  "0 < x \<Longrightarrow> roundToDouble x = of_int (roundHalfEven (x / ulp x)) * ulp x"
  by (simp add: roundToDouble_def)

lemma roundToDouble_range:
  assumes "0 < x"
  shows "2 powr of_int \<lfloor>log 2 x\<rfloor> \<le> roundToDouble x"
    and "roundToDouble x \<le> 2 powr (of_int \<lfloor>log 2 x\<rfloor> + 1)"
proof -
  let ?e = "of_int \<lfloor>log 2 x\<rfloor> :: real"
  let ?n = "roundHalfEven (x / ulp x)"
  have u: "ulp x = 2 powr (?e - 52)" using assms by (simp add: ulp_def)
  have a: "2 powr ?e = 2 ^ 52 * ulp x" unfolding u by (simp add: powr_diff)
  have b: "2 powr (?e + 1) = 2 ^ 53 * ulp x" unfolding u by (simp add: powr_diff powr_add)
  have "roundHalfEven (of_int (2 ^ 52)) \<le> ?n"
    using scaled_range(1) [OF assms] by (intro roundHalfEven_mono) simp
  then have lo: "(2 ^ 52 :: int) \<le> ?n" by (simp only: roundHalfEven_of_int)
  have "?n \<le> roundHalfEven (of_int (2 ^ 53))"
    using scaled_range(2) [OF assms] by (intro roundHalfEven_mono) simp
  then have hi: "?n \<le> (2 ^ 53 :: int)" by (simp only: roundHalfEven_of_int)
  from lo have "(2 ^ 52 :: real) \<le> of_int ?n" by (metis of_int_le_iff of_int_numeral of_int_power)
  then have "2 ^ 52 * ulp x \<le> of_int ?n * ulp x" using ulp_pos [of x] by simp
  then show "2 powr ?e \<le> roundToDouble x"
    using assms by (simp add: roundToDouble_pos_eq a)
  from hi have "of_int ?n \<le> (2 ^ 53 :: real)" by (metis of_int_le_iff of_int_numeral of_int_power)
  then have "of_int ?n * ulp x \<le> 2 ^ 53 * ulp x" using ulp_pos [of x] by simp
  then show "roundToDouble x \<le> 2 powr (?e + 1)"
    using assms by (simp add: roundToDouble_pos_eq b)
qed

lemma roundToDouble_pos: "0 < x \<Longrightarrow> 0 < roundToDouble x"
  using roundToDouble_range(1) [of x] powr_gt_zero [of 2 "of_int \<lfloor>log 2 x\<rfloor>"] by linarith

lemma roundToDouble_mono:
  assumes "0 < x" "x \<le> y"
  shows "roundToDouble x \<le> roundToDouble y"
proof -
  have y: "0 < y" using assms by simp
  have le: "\<lfloor>log 2 x\<rfloor> \<le> \<lfloor>log 2 y\<rfloor>"
    using assms by (intro floor_mono) simp
  show ?thesis
  proof (cases "\<lfloor>log 2 x\<rfloor> = \<lfloor>log 2 y\<rfloor>")
    case True
    then have u: "ulp x = ulp y" using assms y by (simp add: ulp_def)
    have "x / ulp y \<le> y / ulp y" using assms ulp_pos [of y] by (simp add: divide_right_mono)
    then have "roundHalfEven (x / ulp y) \<le> roundHalfEven (y / ulp y)" by (rule roundHalfEven_mono)
    then have "(of_int (roundHalfEven (x / ulp y)) :: real) \<le> of_int (roundHalfEven (y / ulp y))" by simp
    then show ?thesis
      using assms(1) y ulp_pos [of y] by (simp add: roundToDouble_pos_eq u)
  next
    case False
    with le have "\<lfloor>log 2 x\<rfloor> + 1 \<le> \<lfloor>log 2 y\<rfloor>" by simp
    then have "(of_int \<lfloor>log 2 x\<rfloor> :: real) + 1 \<le> of_int \<lfloor>log 2 y\<rfloor>" by linarith
    then have "(2::real) powr (of_int \<lfloor>log 2 x\<rfloor> + 1) \<le> 2 powr of_int \<lfloor>log 2 y\<rfloor>"
      by (simp only: powr_le_cancel_iff) 
    with roundToDouble_range(2) [OF assms(1)] roundToDouble_range(1) [OF y] show ?thesis by linarith
  qed
qed

lemma roundToDouble_exact:
  assumes "0 < x" and "\<lfloor>log 2 x\<rfloor> = e" and "x = of_int n * 2 powr (of_int e - 52)"
  shows "roundToDouble x = x"
proof -
  have u: "ulp x = 2 powr (of_int e - 52)" using assms by (simp add: ulp_def)
  have "x / ulp x = of_int n" unfolding u using assms(3) by simp
  moreover have "of_int n * ulp x = x" unfolding u using assms(3) by simp
  ultimately show ?thesis using assms(1) by (simp add: roundToDouble_pos_eq)
qed

lemma roundToDouble_times4:
  assumes "0 < x"
  shows "roundToDouble (4 * x) = 4 * roundToDouble x"
proof -
  have "log 2 (4 * x) = log 2 (2 ^ 2) + log 2 x" using assms by (simp add: log_mult)
  also have "\<dots> = 2 + log 2 x" by (simp only: log_pow_cancel)
  finally have l: "\<lfloor>log 2 (4 * x)\<rfloor> = \<lfloor>log 2 x\<rfloor> + 2" by simp
  have u: "ulp (4 * x) = 4 * ulp x"
    using assms by (simp add: ulp_def l powr_add powr_diff)
  have "4 * x / ulp (4 * x) = x / ulp x" unfolding u by simp
  then show ?thesis using assms by (simp add: roundToDouble_pos_eq u)
qed

lemma roundToDouble_dyadic:
  assumes "2 ^ 52 \<le> m" "m < 2 ^ 53"
  shows "roundToDouble (of_int m / 2 ^ j) = of_int m / 2 ^ j"
proof -
  let ?x = "of_int m / 2 ^ j :: real"
  have m: "0 < m" using assms(1) by (smt (verit) zero_less_power)
  then have x: "0 < ?x" by simp
  have lo: "(2::real) ^ 52 \<le> of_int m" using assms(1) by (metis of_int_le_iff of_int_numeral of_int_power)
  have hi: "of_int m < (2::real) ^ 53" using assms(2) by (metis of_int_less_iff of_int_numeral of_int_power)
  have e: "\<lfloor>log 2 ?x\<rfloor> = 52 - int j"
  proof (subst floor_log_eq_powr_iff [OF x])
    show "(1::real) < 2" by simp
    have a: "(2::real) powr real_of_int (52 - int j) = 2 ^ 52 / 2 ^ j"
      by (simp add: powr_diff powr_realpow)
    have b: "(2::real) powr real_of_int (52 - int j + 1) = 2 ^ 53 / 2 ^ j"
      by (simp add: powr_diff powr_add powr_realpow)
    show "2 powr real_of_int (52 - int j) \<le> ?x \<and> ?x < 2 powr real_of_int (52 - int j + 1)"
      unfolding a b using lo hi by (simp add: divide_right_mono divide_strict_right_mono)
  qed
  have u: "(2::real) powr (real_of_int (52 - int j) - 52) = 1 / 2 ^ j"
    by (simp add: powr_minus powr_realpow inverse_eq_divide)
  show ?thesis
    by (rule roundToDouble_exact [OF x e, of m]) (simp add: powr_minus powr_realpow divide_inverse)
qed

lemma anchors:
  "roundToDouble 1 = 1" "roundToDouble 2 = 2" "roundToDouble 4 = 4" "roundToDouble 8 = 8"
  "roundToDouble 30 = 30" "roundToDouble (3 / 2) = 3 / 2" "roundToDouble (27 / 4) = 27 / 4"
  "roundToDouble (19 / 4) = 19 / 4"
  using roundToDouble_dyadic [of "2 ^ 52" 52] roundToDouble_dyadic [of "2 ^ 52" 51]
    roundToDouble_dyadic [of "2 ^ 52" 50] roundToDouble_dyadic [of "2 ^ 52" 49]
    roundToDouble_dyadic [of "30 * 2 ^ 48" 48] roundToDouble_dyadic [of "3 * 2 ^ 51" 52]
    roundToDouble_dyadic [of "27 * 2 ^ 48" 50] roundToDouble_dyadic [of "19 * 2 ^ 48" 50]
  by simp_all

subsection \<open>The unit index\<close>

lemma ln2_upper: "ln (2::real) \<le> 7 / 10"
proof -
  have "(2::real) \<le> (101 / 100) ^ 70" by (simp add: power_divide)
  then have "ln (2::real) \<le> ln ((101 / 100) ^ 70)"
    by (intro ln_mono) simp_all
  also have "\<dots> = 70 * ln (1 + 1 / 100 :: real)" by (simp add: ln_realpow)
  also have "\<dots> \<le> 70 * (1 / 100)"
    using ln_add_one_self_le_self [of "1 / 100 :: real"] by simp
  finally show ?thesis by simp
qed

lemma ln2_lower: "27 / 40 \<le> ln (2::real)"
proof -
  have "(1 / 100 :: real) - (1 / 100)\<^sup>2 \<le> ln (1 + 1 / 100)"
    by (intro ln_one_plus_pos_lower_bound) simp_all
  then have "69 * (99 / 10000) \<le> 69 * ln (1 + 1 / 100 :: real)" by (simp add: power2_eq_square)
  also have "\<dots> = ln ((101 / 100 :: real) ^ 69)" by (simp add: ln_realpow)
  also have "\<dots> \<le> ln 2"
  proof -
    have "(101 / 100 :: real) ^ 69 \<le> 2" by (simp add: power_divide)
    then show ?thesis by (intro ln_mono) simp_all
  qed
  finally show ?thesis by simp
qed

lemma ln_1024: "ln (1024::real) = 10 * ln 2"
proof -
  have "ln ((2::real) ^ 10) = 10 * ln 2" by (simp only: ln_realpow)
  then show ?thesis by simp
qed

lemma Math_log_1024_lower: "27 / 4 \<le> Math_log 1024"
proof -
  have "(27 / 4 :: real) \<le> ln 1024" using ln2_lower by (simp add: ln_1024)
  then have "roundToDouble (27 / 4) \<le> roundToDouble (ln 1024)"
    by (intro roundToDouble_mono) simp_all
  then show ?thesis by (simp add: Math_log_def anchors)
qed

lemma Math_log_1024_pos: "0 < Math_log 1024"
  using Math_log_1024_lower by linarith

lemma Math_log_mono:
  assumes "1 < x" "x \<le> y"
  shows "Math_log x \<le> Math_log y"
  unfolding Math_log_def using assms by (intro roundToDouble_mono) simp_all

lemma Math_log_upper:
  assumes "1 < x" "ln x \<le> c" "roundToDouble c = c"
  shows "Math_log x \<le> c"
proof -
  have "roundToDouble (ln x) \<le> roundToDouble c" using assms by (intro roundToDouble_mono) simp_all
  then show ?thesis by (simp add: Math_log_def assms(3))
qed

lemma Math_log_1024_pow4: "Math_log (1024 ^ 4) = 4 * Math_log 1024"
proof -
  have "ln ((1024::real) ^ 4) = 4 * ln 1024" by (simp only: ln_realpow)
  moreover have "0 < ln (1024::real)" by simp
  ultimately show ?thesis by (simp only: Math_log_def roundToDouble_times4)
qed

lemma fdiv_lower:
  assumes "0 < b" "c * b \<le> a" "0 < c" "roundToDouble c = c"
  shows "c \<le> fdiv a b"
proof -
  have "c \<le> a / b" using assms by (simp add: pos_le_divide_eq)
  then have "roundToDouble c \<le> roundToDouble (a / b)" using assms(3) by (intro roundToDouble_mono)
  then show ?thesis by (simp add: fdiv_def assms(4))
qed

lemma fdiv_upper:
  assumes "0 < b" "0 < a" "a \<le> c * b" "roundToDouble c = c"
  shows "fdiv a b \<le> c"
proof -
  have "a / b \<le> c" using assms by (simp add: pos_divide_le_eq)
  moreover have "0 < a / b" using assms by simp
  ultimately have "roundToDouble (a / b) \<le> roundToDouble c" by (intro roundToDouble_mono)
  then show ?thesis by (simp add: fdiv_def assms(4))
qed

lemma unitIndex_ge4:
  assumes "1024 ^ 4 \<le> bytes"
  shows "4 \<le> unitIndex bytes"
proof -
  have "(1024::real) ^ 4 \<le> real bytes" using assms by (metis of_nat_le_iff of_nat_numeral of_nat_power)
  then have "Math_log (1024 ^ 4) \<le> Math_log (real bytes)" by (intro Math_log_mono) simp_all
  then have "4 * Math_log 1024 \<le> Math_log (real bytes)" by (simp only: Math_log_1024_pow4)
  then have "4 \<le> fdiv (Math_log (real bytes)) (Math_log 1024)"
    using Math_log_1024_pos by (intro fdiv_lower) (simp_all add: anchors)
  then show ?thesis by (simp add: unitIndex_def le_floor_iff)
qed

lemma unitIndex_between:
  assumes "1 < bytes"
    and lo: "real_of_int i * Math_log 1024 \<le> Math_log (real bytes)" "0 < i" "roundToDouble (real_of_int i) = real_of_int i"
    and hi: "Math_log (real bytes) \<le> c * Math_log 1024" "c < real_of_int i + 1" "roundToDouble c = c"
  shows "unitIndex bytes = i"
proof -
  have p: "0 < Math_log (real bytes)"
    using lo Math_log_1024_pos by (smt (verit) mult_pos_pos of_int_0_less_iff)
  have "real_of_int i \<le> fdiv (Math_log (real bytes)) (Math_log 1024)"
    using Math_log_1024_pos lo by (intro fdiv_lower) simp_all
  moreover have "fdiv (Math_log (real bytes)) (Math_log 1024) \<le> c"
    using Math_log_1024_pos p hi by (intro fdiv_upper) simp_all
  ultimately show ?thesis using hi(2) unfolding unitIndex_def by linarith
qed

lemma unitIndex_2048: "unitIndex 2048 = 1"
proof (rule unitIndex_between [where c = "3 / 2"])
  show "1 < (2048::nat)" by simp
  show "real_of_int 1 * Math_log 1024 \<le> Math_log (real 2048)"
    using Math_log_mono [of 1024 2048] by simp
  have "ln (2048::real) = 11 * ln 2"
  proof -
    have "ln ((2::real) ^ 11) = 11 * ln 2" by (simp only: ln_realpow)
    then show ?thesis by simp
  qed
  then have "ln (2048::real) \<le> 8" using ln2_upper by simp
  then have "Math_log 2048 \<le> 8" by (intro Math_log_upper) (simp_all add: anchors)
  then show "Math_log (real 2048) \<le> 3 / 2 * Math_log 1024" using Math_log_1024_lower by simp
qed (simp_all add: anchors)

lemma unitIndex_one_tebibyte: "unitIndex (1024 ^ 4) = 4"
proof -
  have "Math_log (1024 ^ 4) / Math_log 1024 = 4"
    using Math_log_1024_pos by (simp only: Math_log_1024_pow4) simp
  then have "fdiv (Math_log (1024 ^ 4)) (Math_log 1024) = 4"
    by (simp only: fdiv_def anchors)
  moreover have "real (1024 ^ 4) = 1024 ^ 4" by (simp only: of_nat_power of_nat_numeral)
  ultimately show ?thesis by (simp only: unitIndex_def floor_numeral)
qed

lemma unitIndex_1536_gibibytes: "unitIndex (1536 * 1024 ^ 3) = 4"
proof (rule unitIndex_between [where c = "19 / 4"])
  show "1 < (1536 * 1024 ^ 3 :: nat)" by simp
  have "Math_log (1024 ^ 4) \<le> Math_log (real (1536 * 1024 ^ 3))" by (intro Math_log_mono) simp_all
  moreover have "real_of_int 4 * Math_log 1024 = Math_log (1024 ^ 4)"
    by (simp only: Math_log_1024_pow4 of_int_numeral)
  ultimately show "real_of_int 4 * Math_log 1024 \<le> Math_log (real (1536 * 1024 ^ 3))"
    by (simp only:)
  have "ln ((2::real) ^ 41) = 41 * ln 2" by (simp only: ln_realpow)
  moreover have "ln (real (1536 * 1024 ^ 3)) \<le> ln ((2::real) ^ 41)" by (intro ln_mono) simp_all
  ultimately have "ln (real (1536 * 1024 ^ 3)) \<le> 30" using ln2_upper by simp
  then have "Math_log (real (1536 * 1024 ^ 3)) \<le> 30" by (intro Math_log_upper) (simp_all add: anchors)
  then show "Math_log (real (1536 * 1024 ^ 3)) \<le> 19 / 4 * Math_log 1024" using Math_log_1024_lower by simp
qed (simp_all add: anchors)

subsection \<open>The unit index just below a power of 1024\<close>

text \<open>
  Bounds on \<open>ln 2\<close> to 17 decimal places, from the partial sums of the exponential series
  (each term bounded by the previous one times \<open>x / k\<close>, rounded to 26 places).
\<close>

lemma exp_partial_sum_le:
  fixes x :: real
  assumes "0 \<le> x"
  shows "(\<Sum>m<n. x ^ m / fact m) \<le> exp x"
proof -
  obtain t where t: "exp x = (\<Sum>m<n. x ^ m / fact m) + (exp t / fact n) * x ^ n"
    using Maclaurin_exp_le [of x n] by blast
  have "0 \<le> (exp t / fact n) * x ^ n" using assms by simp
  with t show ?thesis by linarith
qed

lemma exp_le_partial_sum:
  fixes x :: real
  assumes "0 \<le> x" "x \<le> 1"
  shows "exp x \<le> (\<Sum>m<n. x ^ m / fact m) + 3 * (x ^ n / fact n)"
proof -
  obtain t where t: "\<bar>t\<bar> \<le> \<bar>x\<bar>" "exp x = (\<Sum>m<n. x ^ m / fact m) + (exp t / fact n) * x ^ n"
    using Maclaurin_exp_le [of x n] by blast
  have "t \<le> 1" using t(1) assms by linarith
  then have "exp t \<le> exp 1" by simp
  then have "exp t \<le> 3" using exp_le by linarith
  then have "exp t * (x ^ n / fact n) \<le> 3 * (x ^ n / fact n)"
    using assms by (intro mult_right_mono) simp_all
  with t(2) show ?thesis by (simp add: field_simps)
qed

lemma sum_20_terms:
  fixes f :: "nat \<Rightarrow> real"
  shows "(\<Sum>m<20. f m) =
    f 0 + f 1 + f 2 + f 3 + f 4 + f 5 + f 6 + f 7 + f 8 + f 9 + f 10 + f 11 + f 12 + f 13 + f 14 +
    f 15 + f 16 + f 17 + f 18 + f 19"
  by (simp add: lessThan_nat_numeral lessThan_Suc)

lemma exp_term_upper:
  fixes x :: real
  assumes "0 \<le> x" and "x ^ n / fact n \<le> u" and "u * x / real (Suc n) \<le> u'"
  shows "x ^ Suc n / fact (Suc n) \<le> u'"
proof -
  have "x ^ Suc n / fact (Suc n) = x ^ n / fact n * (x / real (Suc n))" by (simp add: ac_simps)
  also have "\<dots> \<le> u * (x / real (Suc n))" using assms(1,2) by (intro mult_right_mono) simp_all
  finally show ?thesis using assms(3) by simp
qed

lemma exp_term_lower:
  fixes x :: real
  assumes "0 \<le> x" and "l \<le> x ^ n / fact n" and "l' \<le> l * x / real (Suc n)"
  shows "l' \<le> x ^ Suc n / fact (Suc n)"
proof -
  have "l * (x / real (Suc n)) \<le> x ^ n / fact n * (x / real (Suc n))"
    using assms(1,2) by (intro mult_right_mono) simp_all
  also have "\<dots> = x ^ Suc n / fact (Suc n)" by (simp add: ac_simps)
  finally show ?thesis using assms(3) by simp
qed
lemma ln2_tight_lower: "69314718055994530 / 10 ^ 17 < ln (2::real)"
proof -
  define x :: real where "x = 69314718055994530 / 10 ^ 17"
  have x0: "0 \<le> x" and x1: "x \<le> 1" by (simp_all add: x_def)
  have t0: "x ^ 0 / fact 0 \<le> 1" by simp
  have s1: "1 * x / real (Suc 0) \<le> 6931471805599453 / 10000000000000000" by (simp add: x_def)
  have t1: "x ^ 1 / fact 1 \<le> 6931471805599453 / 10000000000000000" using exp_term_upper [OF x0 t0 s1] by simp
  have s2: "6931471805599453 / 10000000000000000 * x / real (Suc 1) \<le> 24022650695910070580602337 / 100000000000000000000000000" by (simp add: x_def)
  have t2: "x ^ 2 / fact 2 \<le> 24022650695910070580602337 / 100000000000000000000000000" using exp_term_upper [OF x0 t1 s2] by (simp add: power2_eq_square)
  have s3: "24022650695910070580602337 / 100000000000000000000000000 * x / real (Suc 2) \<le> 5550410866482157769087349 / 100000000000000000000000000" by (simp add: x_def)
  have t3: "x ^ 3 / fact 3 \<le> 5550410866482157769087349 / 100000000000000000000000000" using exp_term_upper [OF x0 t2 s3] by simp
  have s4: "5550410866482157769087349 / 100000000000000000000000000 * x / real (Suc 3) \<le> 2404532276907119159821 / 250000000000000000000000" by (simp add: x_def)
  have t4: "x ^ 4 / fact 4 \<le> 2404532276907119159821 / 250000000000000000000000" using exp_term_upper [OF x0 t3 s4] by simp
  have s5: "2404532276907119159821 / 250000000000000000000000 * x / real (Suc 4) \<le> 133335581464284425176507 / 100000000000000000000000000" by (simp add: x_def)
  have t5: "x ^ 5 / fact 5 \<le> 133335581464284425176507 / 100000000000000000000000000" using exp_term_upper [OF x0 t4 s5] by simp
  have s6: "133335581464284425176507 / 100000000000000000000000000 * x / real (Suc 5) \<le> 7701765196690804349393 / 50000000000000000000000000" by (simp add: x_def)
  have t6: "x ^ 6 / fact 6 \<le> 7701765196690804349393 / 50000000000000000000000000" using exp_term_upper [OF x0 t5 s6] by simp
  have s7: "7701765196690804349393 / 50000000000000000000000000 * x / real (Suc 6) \<le> 305054676081196776589 / 20000000000000000000000000" by (simp add: x_def)
  have t7: "x ^ 7 / fact 7 \<le> 305054676081196776589 / 20000000000000000000000000" using exp_term_upper [OF x0 t6 s7] by simp
  have s8: "305054676081196776589 / 20000000000000000000000000 * x / real (Suc 7) \<le> 132154867901443080521 / 100000000000000000000000000" by (simp add: x_def)
  have t8: "x ^ 8 / fact 8 \<le> 132154867901443080521 / 100000000000000000000000000" using exp_term_upper [OF x0 t7 s8] by simp
  have s9: "132154867901443080521 / 100000000000000000000000000 * x / real (Suc 8) \<le> 2544521502309924621 / 25000000000000000000000000" by (simp add: x_def)
  have t9: "x ^ 9 / fact 9 \<le> 2544521502309924621 / 25000000000000000000000000" using exp_term_upper [OF x0 t8 s9] by simp
  have s10: "2544521502309924621 / 25000000000000000000000000 * x / real (Suc 9) \<le> 352745581040056119 / 50000000000000000000000000" by (simp add: x_def)
  have t10: "x ^ 10 / fact 10 \<le> 352745581040056119 / 50000000000000000000000000" using exp_term_upper [OF x0 t9 s10] by simp
  have s11: "352745581040056119 / 50000000000000000000000000 * x / real (Suc 10) \<le> 44455382718708109 / 100000000000000000000000000" by (simp add: x_def)
  have t11: "x ^ 11 / fact 11 \<le> 44455382718708109 / 100000000000000000000000000" using exp_term_upper [OF x0 t10 s11] by simp
  have s12: "44455382718708109 / 100000000000000000000000000 * x / real (Suc 11) \<le> 2567843599348821 / 100000000000000000000000000" by (simp add: x_def)
  have t12: "x ^ 12 / fact 12 \<le> 2567843599348821 / 100000000000000000000000000" using exp_term_upper [OF x0 t11 s12] by simp
  have s13: "2567843599348821 / 100000000000000000000000000 * x / real (Suc 12) \<le> 68457444269521 / 50000000000000000000000000" by (simp add: x_def)
  have t13: "x ^ 13 / fact 13 \<le> 68457444269521 / 50000000000000000000000000" using exp_term_upper [OF x0 t12 s13] by simp
  have s14: "68457444269521 / 50000000000000000000000000 * x / real (Suc 13) \<le> 6778726354823 / 100000000000000000000000000" by (simp add: x_def)
  have t14: "x ^ 14 / fact 14 \<le> 6778726354823 / 100000000000000000000000000" using exp_term_upper [OF x0 t13 s14] by simp
  have s15: "6778726354823 / 100000000000000000000000000 * x / real (Suc 14) \<le> 313243670709 / 100000000000000000000000000" by (simp add: x_def)
  have t15: "x ^ 15 / fact 15 \<le> 313243670709 / 100000000000000000000000000" using exp_term_upper [OF x0 t14 s15] by simp
  have s16: "313243670709 / 100000000000000000000000000 * x / real (Suc 15) \<le> 13570247949 / 100000000000000000000000000" by (simp add: x_def)
  have t16: "x ^ 16 / fact 16 \<le> 13570247949 / 100000000000000000000000000" using exp_term_upper [OF x0 t15 s16] by simp
  have s17: "13570247949 / 100000000000000000000000000 * x / real (Suc 16) \<le> 276652327 / 50000000000000000000000000" by (simp add: x_def)
  have t17: "x ^ 17 / fact 17 \<le> 276652327 / 50000000000000000000000000" using exp_term_upper [OF x0 t16 s17] by simp
  have s18: "276652327 / 50000000000000000000000000 * x / real (Suc 17) \<le> 10653377 / 50000000000000000000000000" by (simp add: x_def)
  have t18: "x ^ 18 / fact 18 \<le> 10653377 / 50000000000000000000000000" using exp_term_upper [OF x0 t17 s18] by simp
  have s19: "10653377 / 50000000000000000000000000 * x / real (Suc 18) \<le> 777301 / 100000000000000000000000000" by (simp add: x_def)
  have t19: "x ^ 19 / fact 19 \<le> 777301 / 100000000000000000000000000" using exp_term_upper [OF x0 t18 s19] by simp
  have s20: "777301 / 100000000000000000000000000 * x / real (Suc 19) \<le> 1347 / 5000000000000000000000000" by (simp add: x_def)
  have t20: "x ^ 20 / fact 20 \<le> 1347 / 5000000000000000000000000" using exp_term_upper [OF x0 t19 s20] by simp
  have "(\<Sum>m<20. x ^ m / fact m) \<le> 1 + 6931471805599453 / 10000000000000000 + 24022650695910070580602337 / 100000000000000000000000000 + 5550410866482157769087349 / 100000000000000000000000000 + 2404532276907119159821 / 250000000000000000000000 + 133335581464284425176507 / 100000000000000000000000000 + 7701765196690804349393 / 50000000000000000000000000 + 305054676081196776589 / 20000000000000000000000000 + 132154867901443080521 / 100000000000000000000000000 + 2544521502309924621 / 25000000000000000000000000 + 352745581040056119 / 50000000000000000000000000 + 44455382718708109 / 100000000000000000000000000 + 2567843599348821 / 100000000000000000000000000 + 68457444269521 / 50000000000000000000000000 + 6778726354823 / 100000000000000000000000000 + 313243670709 / 100000000000000000000000000 + 13570247949 / 100000000000000000000000000 + 276652327 / 50000000000000000000000000 + 10653377 / 50000000000000000000000000 + 777301 / 100000000000000000000000000"
    unfolding sum_20_terms by (intro add_mono t0 t1 t2 t3 t4 t5 t6 t7 t8 t9 t10 t11 t12 t13 t14 t15 t16 t17 t18 t19)
  then have s: "(\<Sum>m<20. x ^ m / fact m) \<le> 199999999999999998116525729 / 100000000000000000000000000" by simp
  have "exp x \<le> (\<Sum>m<20. x ^ m / fact m) + 3 * (x ^ 20 / fact 20)"
    using x0 x1 by (rule exp_le_partial_sum)
  with s t20 have "exp x < 2" by linarith
  then have "exp x < exp (ln 2)" by simp
  then show ?thesis by (simp only: exp_less_cancel_iff x_def)
qed

lemma ln2_tight_upper: "ln (2::real) < 69314718055994531 / 10 ^ 17"
proof -
  define x :: real where "x = 69314718055994531 / 10 ^ 17"
  have x0: "0 \<le> x" by (simp add: x_def)
  have t0: "1 \<le> x ^ 0 / fact 0" by simp
  have s1: "69314718055994531 / 100000000000000000 \<le> 1 * x / real (Suc 0)" by (simp add: x_def)
  have t1: "69314718055994531 / 100000000000000000 \<le> x ^ 1 / fact 1" using exp_term_lower [OF x0 t0 s1] by simp
  have s2: "24022650695910071273749517 / 100000000000000000000000000 \<le> 69314718055994531 / 100000000000000000 * x / real (Suc 1)" by (simp add: x_def)
  have t2: "24022650695910071273749517 / 100000000000000000000000000 \<le> x ^ 2 / fact 2" using exp_term_lower [OF x0 t1 s2] by (simp add: power2_eq_square)
  have s3: "1110082173296431601862771 / 20000000000000000000000000 \<le> 24022650695910071273749517 / 100000000000000000000000000 * x / real (Suc 2)" by (simp add: x_def)
  have t3: "1110082173296431601862771 / 20000000000000000000000000 \<le> x ^ 3 / fact 3" using exp_term_lower [OF x0 t2 s3] by simp
  have s4: "240453227690711929858127 / 25000000000000000000000000 \<le> 1110082173296431601862771 / 20000000000000000000000000 * x / real (Suc 3)" by (simp add: x_def)
  have t4: "240453227690711929858127 / 25000000000000000000000000 \<le> x ^ 4 / fact 4" using exp_term_lower [OF x0 t3 s4] by simp
  have s5: "26667116292856886958927 / 20000000000000000000000000 \<le> 240453227690711929858127 / 25000000000000000000000000 * x / real (Suc 4)" by (simp add: x_def)
  have t5: "26667116292856886958927 / 20000000000000000000000000 \<le> x ^ 5 / fact 5" using exp_term_lower [OF x0 t4 s5] by simp
  have s6: "770176519669080501607 / 5000000000000000000000000 \<le> 26667116292856886958927 / 20000000000000000000000000 * x / real (Suc 5)" by (simp add: x_def)
  have t6: "770176519669080501607 / 5000000000000000000000000 \<le> x ^ 6 / fact 6" using exp_term_lower [OF x0 t5 s6] by simp
  have s7: "1525273380405984036979 / 100000000000000000000000000 \<le> 770176519669080501607 / 5000000000000000000000000 * x / real (Suc 6)" by (simp add: x_def)
  have t7: "1525273380405984036979 / 100000000000000000000000000 \<le> x ^ 7 / fact 7" using exp_term_lower [OF x0 t6 s7] by simp
  have s8: "33038716975360773943 / 25000000000000000000000000 \<le> 1525273380405984036979 / 100000000000000000000000000 * x / real (Suc 7)" by (simp add: x_def)
  have t8: "33038716975360773943 / 25000000000000000000000000 \<le> x ^ 8 / fact 8" using exp_term_lower [OF x0 t7 s8] by simp
  have s9: "2544521502309924951 / 25000000000000000000000000 \<le> 33038716975360773943 / 25000000000000000000000000 * x / real (Suc 8)" by (simp add: x_def)
  have t9: "2544521502309924951 / 25000000000000000000000000 \<le> x ^ 9 / fact 9" using exp_term_lower [OF x0 t8 s9] by simp
  have s10: "352745581040056169 / 50000000000000000000000000 \<le> 2544521502309924951 / 25000000000000000000000000 * x / real (Suc 9)" by (simp add: x_def)
  have t10: "352745581040056169 / 50000000000000000000000000 \<le> x ^ 10 / fact 10" using exp_term_lower [OF x0 t9 s10] by simp
  have s11: "8891076543741623 / 20000000000000000000000000 \<le> 352745581040056169 / 50000000000000000000000000 * x / real (Suc 10)" by (simp add: x_def)
  have t11: "8891076543741623 / 20000000000000000000000000 \<le> x ^ 11 / fact 11" using exp_term_lower [OF x0 t10 s11] by simp
  have s12: "128392179967441 / 5000000000000000000000000 \<le> 8891076543741623 / 20000000000000000000000000 * x / real (Suc 11)" by (simp add: x_def)
  have t12: "128392179967441 / 5000000000000000000000000 \<le> x ^ 12 / fact 12" using exp_term_lower [OF x0 t11 s12] by simp
  have s13: "136914888539041 / 100000000000000000000000000 \<le> 128392179967441 / 5000000000000000000000000 * x / real (Suc 12)" by (simp add: x_def)
  have t13: "136914888539041 / 100000000000000000000000000 \<le> x ^ 13 / fact 13" using exp_term_lower [OF x0 t12 s13] by simp
  have s14: "3389363177411 / 50000000000000000000000000 \<le> 136914888539041 / 100000000000000000000000000 * x / real (Suc 13)" by (simp add: x_def)
  have t14: "3389363177411 / 50000000000000000000000000 \<le> x ^ 14 / fact 14" using exp_term_lower [OF x0 t13 s14] by simp
  have s15: "78310917677 / 25000000000000000000000000 \<le> 3389363177411 / 50000000000000000000000000 * x / real (Suc 14)" by (simp add: x_def)
  have t15: "78310917677 / 25000000000000000000000000 \<le> x ^ 15 / fact 15" using exp_term_lower [OF x0 t14 s15] by simp
  have s16: "3392561987 / 25000000000000000000000000 \<le> 78310917677 / 25000000000000000000000000 * x / real (Suc 15)" by (simp add: x_def)
  have t16: "3392561987 / 25000000000000000000000000 \<le> x ^ 16 / fact 16" using exp_term_lower [OF x0 t15 s16] by simp
  have s17: "553304653 / 100000000000000000000000000 \<le> 3392561987 / 25000000000000000000000000 * x / real (Suc 16)" by (simp add: x_def)
  have t17: "553304653 / 100000000000000000000000000 \<le> x ^ 17 / fact 17" using exp_term_lower [OF x0 t16 s17] by simp
  have s18: "21306753 / 100000000000000000000000000 \<le> 553304653 / 100000000000000000000000000 * x / real (Suc 17)" by (simp add: x_def)
  have t18: "21306753 / 100000000000000000000000000 \<le> x ^ 18 / fact 18" using exp_term_lower [OF x0 t17 s18] by simp
  have s19: "7773 / 1000000000000000000000000 \<le> 21306753 / 100000000000000000000000000 * x / real (Suc 18)" by (simp add: x_def)
  have t19: "7773 / 1000000000000000000000000 \<le> x ^ 19 / fact 19" using exp_term_lower [OF x0 t18 s19] by simp
  have "1 + 69314718055994531 / 100000000000000000 + 24022650695910071273749517 / 100000000000000000000000000 + 1110082173296431601862771 / 20000000000000000000000000 + 240453227690711929858127 / 25000000000000000000000000 + 26667116292856886958927 / 20000000000000000000000000 + 770176519669080501607 / 5000000000000000000000000 + 1525273380405984036979 / 100000000000000000000000000 + 33038716975360773943 / 25000000000000000000000000 + 2544521502309924951 / 25000000000000000000000000 + 352745581040056169 / 50000000000000000000000000 + 8891076543741623 / 20000000000000000000000000 + 128392179967441 / 5000000000000000000000000 + 136914888539041 / 100000000000000000000000000 + 3389363177411 / 50000000000000000000000000 + 78310917677 / 25000000000000000000000000 + 3392561987 / 25000000000000000000000000 + 553304653 / 100000000000000000000000000 + 21306753 / 100000000000000000000000000 + 7773 / 1000000000000000000000000 \<le> (\<Sum>m<20. x ^ m / fact m)"
    unfolding sum_20_terms by (intro add_mono t0 t1 t2 t3 t4 t5 t6 t7 t8 t9 t10 t11 t12 t13 t14 t15 t16 t17 t18 t19)
  then have s: "50000000000000000029131427 / 25000000000000000000000000 \<le> (\<Sum>m<20. x ^ m / fact m)" by simp
  have "(\<Sum>m<20. x ^ m / fact m) \<le> exp x" using x0 by (rule exp_partial_sum_le)
  with s have "2 < exp x" by linarith
  then have "exp (ln 2) < exp x" by simp
  then show ?thesis by (simp only: exp_less_cancel_iff x_def)
qed

text \<open>
  With these bounds the doubles \<open>Math.log(1024)\<close> and \<open>Math.log(2^50 - 1)\<close> are known to
  the last bit, and so is the index at \<open>2^50 - 1\<close>: the quotient of the two logarithms
  rounds to 5, one more than the floor of the exact logarithm to base 1024.
\<close>

lemma roundHalfEven_near:
  assumes "\<bar>z - of_int m\<bar> < 1 / 2"
  shows "roundHalfEven z = m"
proof (cases "of_int m \<le> z")
  case True
  with assms have "\<lfloor>z\<rfloor> = m" by (intro floor_unique) linarith+
  with assms True show ?thesis by (simp add: roundHalfEven_def Let_def)
next
  case False
  with assms have f: "\<lfloor>z\<rfloor> = m - 1" unfolding floor_eq_iff by (auto simp: abs_less_iff)
  with assms False show ?thesis by (auto simp: roundHalfEven_def Let_def abs_less_iff)
qed

lemma roundToDouble_near:
  assumes "2 ^ 52 < m" "m < 2 ^ 53" and "\<bar>x * 2 ^ j - of_int m\<bar> < 1 / 2"
  shows "roundToDouble x = of_int m / 2 ^ j"
proof -
  have lo: "(2::real) ^ 52 + 1 \<le> of_int m"
  proof -
    have "(2 ^ 52 :: int) + 1 \<le> m" using assms(1) by simp
    then have "real_of_int (2 ^ 52 + 1) \<le> of_int m" by (simp only: of_int_le_iff)
    then show ?thesis by simp
  qed
  have hi: "of_int m \<le> (2::real) ^ 53 - 1"
  proof -
    have "m \<le> (2 ^ 53 :: int) - 1" using assms(2) by simp
    then have "of_int m \<le> real_of_int (2 ^ 53 - 1)" by (simp only: of_int_le_iff)
    then show ?thesis by simp
  qed
  have z: "2 ^ 52 \<le> x * 2 ^ j" "x * 2 ^ j < 2 ^ 53" using assms(3) lo hi by linarith+
  have x: "0 < x"
  proof -
    have "0 < x * 2 ^ j" using z(1) by (smt (verit) zero_less_power)
    then show ?thesis by (simp add: zero_less_mult_iff)
  qed
  have e: "\<lfloor>log 2 x\<rfloor> = 52 - int j"
  proof (subst floor_log_eq_powr_iff [OF x])
    show "(1::real) < 2" by simp
    have a: "(2::real) powr real_of_int (52 - int j) = 2 ^ 52 / 2 ^ j"
      by (simp add: powr_diff powr_realpow)
    have b: "(2::real) powr real_of_int (52 - int j + 1) = 2 ^ 53 / 2 ^ j"
      by (simp add: powr_diff powr_add powr_realpow)
    show "2 powr real_of_int (52 - int j) \<le> x \<and> x < 2 powr real_of_int (52 - int j + 1)"
      unfolding a b using z by (simp add: pos_divide_le_eq pos_less_divide_eq)
  qed
  have u: "ulp x = 1 / 2 ^ j"
    using x by (simp add: ulp_def e powr_minus powr_realpow inverse_eq_divide)
  have "x / ulp x = x * 2 ^ j" by (simp add: u)
  then have "roundHalfEven (x / ulp x) = m" using roundHalfEven_near [OF assms(3)] by simp
  then show ?thesis using x by (simp add: roundToDouble_pos_eq u)
qed

lemma Math_log_1024_value: "Math_log 1024 = 7804143460206699 / 2 ^ 50"
proof -
  have "ln (1024::real) * 2 ^ 50 - of_int 7804143460206699 < 1 / 2
      \<and> - (ln (1024::real) * 2 ^ 50 - of_int 7804143460206699) < 1 / 2"
    using ln2_tight_lower ln2_tight_upper by (simp add: ln_1024)
  then have "\<bar>ln (1024::real) * 2 ^ 50 - of_int 7804143460206699\<bar> < 1 / 2"
    by (simp only: abs_less_iff)
  then have "roundToDouble (ln 1024) = of_int 7804143460206699 / 2 ^ 50"
    by (intro roundToDouble_near) simp_all
  then show ?thesis by (simp add: Math_log_def)
qed

lemma ln_below_2_pow_50:
  "50 * ln (2::real) - 1 / 2 ^ 50 - 2 / 2 ^ 100 \<le> ln (2 ^ 50 - 1)"
  "ln ((2::real) ^ 50 - 1) \<le> 50 * ln 2 - 1 / 2 ^ 50"
proof -
  have s: "(2::real) ^ 50 - 1 = 2 ^ 50 * (1 - 1 / 2 ^ 50)" by simp
  have l: "ln ((2::real) ^ 50 - 1) = 50 * ln 2 + ln (1 - 1 / 2 ^ 50)"
  proof -
    have "ln ((2::real) ^ 50 * (1 - 1 / 2 ^ 50)) = ln (2 ^ 50) + ln (1 - 1 / 2 ^ 50)"
      by (subst ln_mult) simp_all
    also have "ln ((2::real) ^ 50) = 50 * ln 2" by (simp only: ln_realpow)
    finally show ?thesis by (simp only: s)
  qed
  have "- (1 / 2 ^ 50) - 2 * (1 / 2 ^ 50)\<^sup>2 \<le> ln (1 - 1 / 2 ^ 50 :: real)"
    by (intro ln_one_minus_pos_lower_bound) simp_all
  then show "50 * ln (2::real) - 1 / 2 ^ 50 - 2 / 2 ^ 100 \<le> ln (2 ^ 50 - 1)"
    unfolding l by (simp add: power2_eq_square)
  have "ln (1 - 1 / 2 ^ 50 :: real) \<le> (1 - 1 / 2 ^ 50) - 1"
    by (intro ln_le_minus_one) simp
  then show "ln ((2::real) ^ 50 - 1) \<le> 50 * ln 2 - 1 / 2 ^ 50"
    unfolding l by simp
qed

lemma Math_log_below_2_pow_50: "Math_log (2 ^ 50 - 1) = 4877589662629187 / 2 ^ 47"
proof -
  have "ln ((2::real) ^ 50 - 1) * 2 ^ 47 - of_int 4877589662629187 < 1 / 2
      \<and> - (ln ((2::real) ^ 50 - 1) * 2 ^ 47 - of_int 4877589662629187) < 1 / 2"
    using ln2_tight_lower ln2_tight_upper ln_below_2_pow_50 by simp
  then have "\<bar>ln ((2::real) ^ 50 - 1) * 2 ^ 47 - of_int 4877589662629187\<bar> < 1 / 2"
    by (simp only: abs_less_iff)
  then have "roundToDouble (ln (2 ^ 50 - 1)) = of_int 4877589662629187 / 2 ^ 47"
    by (intro roundToDouble_near) simp_all
  then show ?thesis by (simp add: Math_log_def)
qed

lemma unitIndex_below_2_pow_50: "unitIndex (2 ^ 50 - 1) = 5"
proof -
  have r: "real (2 ^ 50 - 1) = 2 ^ 50 - 1" by simp
  have "\<bar>(4877589662629187 / 2 ^ 47) / (7804143460206699 / 2 ^ 50) * 2 ^ 50 - real_of_int (5 * 2 ^ 50)\<bar> < 1 / 2"
    by (simp add: abs_less_iff)
  then have "roundToDouble ((4877589662629187 / 2 ^ 47) / (7804143460206699 / 2 ^ 50)) = of_int (5 * 2 ^ 50) / 2 ^ 50"
    by (intro roundToDouble_near) simp_all
  then have "fdiv (Math_log (2 ^ 50 - 1)) (Math_log 1024) = 5"
    by (simp only: fdiv_def Math_log_1024_value Math_log_below_2_pow_50) simp
  then show ?thesis by (simp only: unitIndex_def r floor_numeral)
qed

lemma numToString_digit: "n < 10 \<Longrightarrow> numToString n = [48 + n]"
  by (simp add: numToString.simps)

lemma formatFileSize_at:
  assumes "bytes \<noteq> 0" and "unitIndex bytes = int j"
  shows "formatFileSize bytes =
     showHundredths (toFixed2 (fdiv (real bytes) (1024 ^ j))) @ str '' '' @ showUnit (arrayAt sizes (int j))"
proof -
  have "(1024::real) powr real_of_int (int j) = 1024 ^ j" by (simp add: powr_realpow)
  with assms show ?thesis by (simp add: formatFileSize_def Let_def)
qed

section \<open>Properties of the dispatch\<close>

lemma convertFileToText_strategy:
  "convertFileToText env file =
     (case strategyOf env file of
        TextFile \<Rightarrow> readTextFile env file
      | JsonFile \<Rightarrow> convertJsonToText env file
      | XmlFile \<Rightarrow> readTextFile env file
      | ScriptFile \<Rightarrow> readTextFile env file
      | WordFile \<Rightarrow> convertDocxToText env file
      | ExcelFile \<Rightarrow> convertExcelToText env file
      | PdfFile \<Rightarrow> convertPdfToText env file
      | ImageFile \<Rightarrow> convertImageToText env file
      | ArchiveFile \<Rightarrow> convertArchiveToText env file
      | SvgFile \<Rightarrow> readTextFile env file
      | LogFile \<Rightarrow> readTextFile env file
      | UnknownFile \<Rightarrow> convertUnknownToText env file (toLowerCase env (ftype file)))"
  by (simp add: convertFileToText_def strategyOf_def strategy_def Let_def)

lemma endsWith_both:
  assumes "endsWith s p" "endsWith s q" "length q \<le> length p"
  shows "endsWith p q"
proof -
  from assms(1) have lp: "length p \<le> length s" and p: "p = drop (length s - length p) s"
    by (simp_all add: endsWith_def)
  from assms(2) have q: "drop (length s - length q) s = q" by (simp add: endsWith_def)
  have "drop (length p - length q) p = drop (length p - length q) (drop (length s - length p) s)"
    using p by simp
  also have "\<dots> = drop (length s - length q) s"
    using lp assms(3) by (simp add: drop_drop)
  finally show ?thesis using q assms(3) by (simp add: endsWith_def)
qed

lemma endsWith_svg_excludes:
  assumes "endsWith s (str ''.svg'')"
  shows "\<not> endsWith s (str ''.txt'')" "\<not> endsWith s (str ''.md'')" "\<not> endsWith s (str ''.csv'')"
    "\<not> endsWith s (str ''.json'')" "\<not> endsWith s (str ''.xml'')" "\<not> endsWith s (str ''.html'')"
    "\<not> endsWith s (str ''.htm'')" "\<not> endsWith s (str ''.js'')" "\<not> endsWith s (str ''.css'')"
    "\<not> endsWith s (str ''.ts'')" "\<not> endsWith s (str ''.tsx'')" "\<not> endsWith s (str ''.jsx'')"
    "\<not> endsWith s (str ''.docx'')" "\<not> endsWith s (str ''.xlsx'')" "\<not> endsWith s (str ''.xls'')"
    "\<not> endsWith s (str ''.pdf'')"
  using endsWith_both [OF assms, of "str ''.txt''"] endsWith_both [OF assms, of "str ''.md''"]
    endsWith_both [OF assms, of "str ''.csv''"] endsWith_both [OF _ assms, of "str ''.json''"]
    endsWith_both [OF assms, of "str ''.xml''"] endsWith_both [OF _ assms, of "str ''.html''"]
    endsWith_both [OF assms, of "str ''.htm''"] endsWith_both [OF assms, of "str ''.js''"]
    endsWith_both [OF assms, of "str ''.css''"] endsWith_both [OF assms, of "str ''.ts''"]
    endsWith_both [OF assms, of "str ''.tsx''"] endsWith_both [OF assms, of "str ''.jsx''"]
    endsWith_both [OF _ assms, of "str ''.docx''"] endsWith_both [OF _ assms, of "str ''.xlsx''"]
    endsWith_both [OF assms, of "str ''.xls''"] endsWith_both [OF assms, of "str ''.pdf''"]
  by (auto simp: endsWith_def str_def)

lemma isBinaryLoop_iff:
  "isBinaryLoop data i \<longleftrightarrow> (\<exists>j. i \<le> j \<and> j < min 1000 (length data) \<and> data ! j = 0)"
proof (induction data i rule: isBinaryLoop.induct)
  case (1 uint8Array i)
  show ?case
  proof (cases "i < min 1000 (length uint8Array)")
    case False
    then show ?thesis by (subst isBinaryLoop.simps) auto
  next
    case True
    show ?thesis
    proof (cases "uint8Array ! i = 0")
      case z: True
      with True show ?thesis by (subst isBinaryLoop.simps) auto
    next
      case nz: False
      have "isBinaryLoop uint8Array i = isBinaryLoop uint8Array (i + 1)"
        using True nz by (subst isBinaryLoop.simps) simp
      also have "\<dots> \<longleftrightarrow> (\<exists>j. i + 1 \<le> j \<and> j < min 1000 (length uint8Array) \<and> uint8Array ! j = 0)"
        using "1.IH" True nz by simp
      also have "\<dots> \<longleftrightarrow> (\<exists>j. i \<le> j \<and> j < min 1000 (length uint8Array) \<and> uint8Array ! j = 0)"
        using nz by (metis Suc_eq_plus1 Suc_leD Suc_leI le_neq_implies_less)
      finally show ?thesis .
    qed
  qed
qed

text \<open>
  What the dispatch does for text-like files: a file that meets the first condition
  (a type under \<open>text/\<close>, or a name ending in \<open>.txt\<close>, \<open>.md\<close> or \<open>.csv\<close>) is read as
  text, and so is a file that reaches the SVG or the log condition. No file of type
  \<open>image/svg+xml\<close> reaches the SVG condition, whatever its name.
\<close>

lemma svg_mime_test_unreachable:
  "strategy fileName (str ''image/svg+xml'') \<noteq> SvgFile"
  by (simp add: strategy_def imageRule_def startsWith_def str_def)

lemma text_files_read_raw:
  assumes "textRule (toLowerCase env (name file)) (toLowerCase env (ftype file))"
  shows "convertFileToText env file = readTextFile env file"
  using assms by (simp add: convertFileToText_def Let_def)

lemma late_text_files_read_raw:
  assumes "strategyOf env file = SvgFile \<or> strategyOf env file = LogFile"
  shows "convertFileToText env file = readTextFile env file"
  using assms by (auto simp: convertFileToText_strategy)

text \<open>
  C1 (the code departs from it). A file whose name ends in \<open>.svg\<close> and whose declared type
  is \<open>image/svg+xml\<close> is not read as raw text: the image condition, which accepts every
  type under \<open>image/\<close>, stands before the SVG condition, so the file goes to the optical
  character recognition.
\<close>

theorem svg_file_sent_to_ocr:
  assumes "toLowerCase env (ftype file) = str ''image/svg+xml''"
    and "endsWith (toLowerCase env (name file)) (str ''.svg'')"
  shows "strategyOf env file = ImageFile \<and> convertFileToText env file = convertImageToText env file"
proof -
  note ex = endsWith_svg_excludes [OF assms(2)]
  have t: "\<not> startsWith (str ''image/svg+xml'') (str ''text/'')"
    "startsWith (str ''image/svg+xml'') (str ''image/'')"
    by (simp_all add: startsWith_def str_def)
  have "strategyOf env file = ImageFile"
    unfolding strategyOf_def strategy_def assms(1)
    using ex t
    by (simp add: textRule_def jsonRule_def xmlRule_def scriptRule_def docxRule_def excelRule_def
        pdfRule_def imageRule_def) (simp add: str_def)
  then show ?thesis by (simp add: convertFileToText_strategy)
qed

lemma formatFileSize_2048: "formatFileSize 2048 = str ''2 KB''"
proof -
  have "fdiv (real 2048) (1024 ^ 1) = 2" by (simp add: fdiv_def anchors)
  with formatFileSize_at [of 2048 1] unitIndex_2048 show ?thesis
    by (simp add: toFixed2_def showHundredths_def numToString_digit arrayAt_def sizes_def showUnit_def str_def)
qed

lemmas rule_defs = textRule_def jsonRule_def xmlRule_def scriptRule_def docxRule_def excelRule_def
  pdfRule_def imageRule_def archiveRule_def svgRule_def logRule_def

lemma demo_strategies:
  "strategyOf demoEnv (sampleFile ''Logo.SVG'' ''image/svg+xml'') = ImageFile"
  "strategyOf demoEnv (sampleFile ''photo.png'' ''image/png'') = ImageFile"
  "strategyOf demoEnv (sampleFile ''report.docx'' '''') = WordFile"
  "strategyOf demoEnv (sampleFile ''table.xlsx'' '''') = ExcelFile"
  "strategyOf demoEnv (sampleFile ''paper.pdf'' ''application/pdf'') = PdfFile"
  "strategyOf demoEnv (sampleFile ''bundle.zip'' '''') = ArchiveFile"
  "strategyOf demoEnv (sampleFile ''data.json'' ''application/json'') = JsonFile"
  "strategyOf demoEnv (sampleFile ''core.dump'' '''') = UnknownFile"
  by (simp_all add: strategyOf_def strategy_def rule_defs demoEnv_def sampleFile_def
      toLowerCaseAscii_def startsWith_def endsWith_def str_def)

lemma demo_metadata:
  "extractImageMetadata demoEnv (sampleFile n t) =
     str ''Image Metadata:'' @ LF @ str ''File: '' @ str n @ LF @ str ''Type: '' @ str t @ LF @
     str ''Size: 2 KB'' @ LF @ str ''Last Modified: 1/1/2024, 12:00:00 AM''"
  by (simp add: extractImageMetadata_def demoEnv_def sampleFile_def formatFileSize_2048 LF_def str_def)

theorem svg_file_sent_to_ocr_witness:
  "convertFileToText demoEnv (sampleFile ''Logo.SVG'' ''image/svg+xml'') =
     Inr (str ''Image Metadata:'' @ LF @ str ''File: Logo.SVG'' @ LF @ str ''Type: image/svg+xml'' @ LF @
          str ''Size: 2 KB'' @ LF @ str ''Last Modified: 1/1/2024, 12:00:00 AM'')
   \<and> readTextFile demoEnv (sampleFile ''Logo.SVG'' ''image/svg+xml'') = Inr (str ''[1,2'')"
proof -
  have t: "toLowerCase demoEnv (ftype (sampleFile ''Logo.SVG'' ''image/svg+xml'')) = str ''image/svg+xml''"
    by (simp add: demoEnv_def sampleFile_def toLowerCaseAscii_def str_def)
  have n: "endsWith (toLowerCase demoEnv (name (sampleFile ''Logo.SVG'' ''image/svg+xml''))) (str ''.svg'')"
    by (simp add: demoEnv_def sampleFile_def toLowerCaseAscii_def endsWith_def str_def)
  have o: "Tesseract_recognize demoEnv (sampleFile ''Logo.SVG'' ''image/svg+xml'') = None"
    by (simp add: demoEnv_def)
  have r: "readTextFile demoEnv (sampleFile ''Logo.SVG'' ''image/svg+xml'') = Inr (str ''[1,2'')"
    by (simp add: readTextFile_def demoEnv_def)
  from svg_file_sent_to_ocr [OF t n]
  have "convertFileToText demoEnv (sampleFile ''Logo.SVG'' ''image/svg+xml'')
      = convertImageToText demoEnv (sampleFile ''Logo.SVG'' ''image/svg+xml'')" by simp
  with o r show ?thesis by (simp add: convertImageToText_def demo_metadata str_def)
qed

section \<open>Properties of the extraction routines\<close>

text \<open>
  C4 as the spec states it fails: in the sample world the recognition throws on
  \<open>photo.png\<close>, and the conversion does not fail but returns the image metadata.
\<close>

theorem ocr_failure_counterexample:
  "strategyOf demoEnv (sampleFile ''photo.png'' ''image/png'') = ImageFile
   \<and> Tesseract_recognize demoEnv (sampleFile ''photo.png'' ''image/png'') = None
   \<and> convertFileToText demoEnv (sampleFile ''photo.png'' ''image/png'') =
     Inr (str ''Image Metadata:'' @ LF @ str ''File: photo.png'' @ LF @ str ''Type: image/png'' @ LF @
          str ''Size: 2 KB'' @ LF @ str ''Last Modified: 1/1/2024, 12:00:00 AM'')"
proof -
  have o: "Tesseract_recognize demoEnv (sampleFile ''photo.png'' ''image/png'') = None"
    by (simp add: demoEnv_def)
  then show ?thesis
    by (simp add: convertFileToText_strategy demo_strategies convertImageToText_def demo_metadata str_def)
qed

text \<open>
  C4, amended. When the recognition throws on a file dispatched as an image, the
  conversion does not fail: it returns the image metadata. When the document, the
  spreadsheet, the PDF or the archive library throws on a file dispatched to it, the
  conversion fails with the error message of that routine.
\<close>

theorem collaborator_failures:
  "(strategyOf env file = ImageFile \<and> Tesseract_recognize env file = None \<longrightarrow>
      convertFileToText env file = Inr (extractImageMetadata env file))
   \<and> (strategyOf env file = WordFile \<and> arrayBuffer env file = Some buffer \<and>
        mammoth_extractRawText env buffer = None \<longrightarrow>
      convertFileToText env file = Inl (Error (str ''Failed to convert DOCX file'')))
   \<and> (strategyOf env file = ExcelFile \<and> arrayBuffer env file = Some buffer \<and>
        XLSX_sheets env buffer = None \<longrightarrow>
      convertFileToText env file = Inl (Error (str ''Failed to convert Excel file'')))
   \<and> (strategyOf env file = PdfFile \<and> arrayBuffer env file = Some buffer \<and>
        pdf_pages env buffer = None \<longrightarrow>
      convertFileToText env file = Inl (Error (str ''Failed to convert PDF file'')))
   \<and> (strategyOf env file = ArchiveFile \<and> JSZip_loadAsync env file = None \<longrightarrow>
      convertFileToText env file = Inl (Error (str ''Failed to read archive file'')))"
  by (simp add: convertFileToText_strategy convertImageToText_def convertDocxToText_def
      convertExcelToText_def convertPdfToText_def convertArchiveToText_def)

theorem collaborator_failures_witness:
  "convertFileToText demoEnv (sampleFile ''photo.png'' ''image/png'')
     = Inr (extractImageMetadata demoEnv (sampleFile ''photo.png'' ''image/png''))
   \<and> convertFileToText demoEnv (sampleFile ''report.docx'' '''') = Inl (Error (str ''Failed to convert DOCX file''))
   \<and> convertFileToText demoEnv (sampleFile ''table.xlsx'' '''') = Inl (Error (str ''Failed to convert Excel file''))
   \<and> convertFileToText demoEnv (sampleFile ''paper.pdf'' ''application/pdf'') = Inl (Error (str ''Failed to convert PDF file''))
   \<and> convertFileToText demoEnv (sampleFile ''bundle.zip'' '''') = Inl (Error (str ''Failed to read archive file''))"
proof -
  let ?buffer = "[0x4D, 0x5A, 0x90, 0x00, 0x48, 0x65, 0x6C, 0x6C, 0x6F] :: byte list"
  have e: "Tesseract_recognize demoEnv f = None" "arrayBuffer demoEnv f = Some ?buffer"
    "mammoth_extractRawText demoEnv b = None" "XLSX_sheets demoEnv b = None"
    "pdf_pages demoEnv b = None" "JSZip_loadAsync demoEnv f = None" for f b
    by (simp_all add: demoEnv_def)
  from collaborator_failures [of demoEnv "sampleFile ''photo.png'' ''image/png''" ?buffer]
    collaborator_failures [of demoEnv "sampleFile ''report.docx'' ''''" ?buffer]
    collaborator_failures [of demoEnv "sampleFile ''table.xlsx'' ''''" ?buffer]
    collaborator_failures [of demoEnv "sampleFile ''paper.pdf'' ''application/pdf''" ?buffer]
    collaborator_failures [of demoEnv "sampleFile ''bundle.zip'' ''''" ?buffer]
  show ?thesis by (simp only: demo_strategies e simp_thms)
qed



text \<open>
  C6. For a file that reaches the last branch and whose bytes could be read: when one of
  the first \<open>min(1000, length)\<close> bytes is zero the result is the binary file
  description of \<open>extractBinaryFileInfo\<close>; when none is, the file is read as text (and a
  failure to read it is the error \<open>Unsupported file type\<close>).
\<close>

theorem fallback_zero_byte_classification:
  assumes "strategyOf env file = UnknownFile" and "arrayBuffer env file = Some data"
  shows "((\<exists>i. i < min 1000 (length data) \<and> data ! i = 0) \<longrightarrow>
            convertFileToText env file = Inr (extractBinaryFileInfo env file data))
    \<and> ((\<forall>i. i < min 1000 (length data) \<longrightarrow> data ! i \<noteq> 0) \<longrightarrow>
            convertFileToText env file =
              (case readAsText env file of
                 Some text \<Rightarrow> Inr text
               | None \<Rightarrow> Inl (unsupported (toLowerCase env (ftype file)))))"
  using assms
  by (auto simp: convertFileToText_strategy convertUnknownToText_def isBinaryLoop_iff readTextFile_def
      split: option.splits)

lemma demo_binary_info:
  "extractBinaryFileInfo demoEnv (sampleFile ''core.dump'' '''') [0x4D, 0x5A, 0x90, 0x00, 0x48, 0x65, 0x6C, 0x6C, 0x6F] =
     str ''File: core.dump'' @ LF @ str ''Type: Binary file'' @ LF @ str ''Size: 2 KB'' @ LF @
     str ''Last Modified: 1/1/2024, 12:00:00 AM'' @ LF @ LF @ str ''File Analysis:'' @ LF @
     str ''- Binary file with 9 bytes'' @ LF @
     str ''- First 16 bytes (hex): 4d 5a 90 00 48 65 6c 6c 6f'' @ LF @
     str ''- Detected format: Windows Executable'' @ LF @ LF @
     str ''Embedded Strings:'' @ LF @ str ''- Hello''"
  by (simp add: extractBinaryFileInfo_def demoEnv_def sampleFile_def formatFileSize_2048 LF_def str_def
      detectFileSignature_def signatures_def hexByte_def padStart2_def toString16_def hexDigit_def
      toUpperCaseAscii_def extractStrings_def stringsStep_def numToString_digit Let_def)

theorem fallback_zero_byte_classification_witness:
  "convertFileToText demoEnv (sampleFile ''core.dump'' '''') =
     Inr (str ''File: core.dump'' @ LF @ str ''Type: Binary file'' @ LF @ str ''Size: 2 KB'' @ LF @
     str ''Last Modified: 1/1/2024, 12:00:00 AM'' @ LF @ LF @ str ''File Analysis:'' @ LF @
     str ''- Binary file with 9 bytes'' @ LF @
     str ''- First 16 bytes (hex): 4d 5a 90 00 48 65 6c 6c 6f'' @ LF @
     str ''- Detected format: Windows Executable'' @ LF @ LF @
     str ''Embedded Strings:'' @ LF @ str ''- Hello'')
   \<and> convertFileToText textEnv (sampleFile ''core.dump'' '''') = Inr (str ''[1,2'')"
proof -
  let ?f = "sampleFile ''core.dump'' ''''"
  let ?bin = "[0x4D, 0x5A, 0x90, 0x00, 0x48, 0x65, 0x6C, 0x6C, 0x6F] :: byte list"
  let ?txt = "[0x5B, 0x31, 0x2C, 0x32] :: byte list"
  have s: "strategyOf textEnv ?f = UnknownFile" "strategyOf demoEnv ?f = UnknownFile"
    using demo_strategies by (simp_all add: strategyOf_def textEnv_def)
  have b: "arrayBuffer demoEnv ?f = Some ?bin" "arrayBuffer textEnv ?f = Some ?txt"
    "readAsText textEnv ?f = Some (str ''[1,2'')"
    by (simp_all add: demoEnv_def textEnv_def)
  have z: "\<exists>i. i < min 1000 (length ?bin) \<and> ?bin ! i = 0"
    by (rule exI [of _ 3]) simp
  have "(0::byte) \<notin> set ?txt" by simp
  then have nz: "\<forall>i. i < min 1000 (length ?txt) \<longrightarrow> ?txt ! i \<noteq> 0"
    by (metis min_less_iff_conj nth_mem)
  from fallback_zero_byte_classification [OF s(2) b(1)] z
  have "convertFileToText demoEnv ?f = Inr (extractBinaryFileInfo demoEnv ?f ?bin)" by blast
  moreover from fallback_zero_byte_classification [OF s(1) b(2)] nz
  have "convertFileToText textEnv ?f = Inr (str ''[1,2'')" by (simp add: b(3))
  ultimately show ?thesis by (simp only: demo_binary_info)
qed

section \<open>The units of the size formatting\<close>

text \<open>
  C8 (the code departs from it). A byte count of \<open>1024^4\<close> is not rendered with one of
  the units \<open>Bytes\<close>, \<open>KB\<close>, \<open>MB\<close>, \<open>GB\<close>: the index computed is 4, the table has four
  entries, and the result is \<open>1 undefined\<close>.
\<close>

theorem formatFileSize_one_tebibyte:
  "formatFileSize (1024 ^ 4) = str ''1 undefined'' \<and> str ''undefined'' \<notin> set sizes"
proof -
  have "real (1024 ^ 4) / 1024 ^ 4 = 1" by simp
  then have "fdiv (real (1024 ^ 4)) (1024 ^ 4) = 1" by (simp only: fdiv_def anchors)
  with formatFileSize_at [of "1024 ^ 4" 4] unitIndex_one_tebibyte show ?thesis
    by (simp add: toFixed2_def showHundredths_def numToString_digit arrayAt_def sizes_def showUnit_def str_def)
qed

text \<open>
  C10. For every byte count of at least \<open>1024^4\<close> the unit index is at least 4, the lookup
  in the four-entry table finds nothing, and the unit printed, \<open>undefined\<close>, is none of
  the four names. The index is computed in doubles: the logarithm and the rounding are
  monotone, the logarithm of \<open>1024^4\<close> is four times that of 1024 to the last bit, and 4
  is a double, so the rounded quotient is at least 4.
\<close>

theorem formatFileSize_unit_out_of_table:
  assumes "1024 ^ 4 \<le> bytes"
  shows "4 \<le> unitIndex bytes
    \<and> arrayAt sizes (unitIndex bytes) = None
    \<and> showUnit (arrayAt sizes (unitIndex bytes)) \<notin> set sizes
    \<and> formatFileSize bytes =
        showHundredths (toFixed2 (fdiv (real bytes) (1024 powr real_of_int (unitIndex bytes)))) @
        str '' undefined''"
proof -
  have i: "4 \<le> unitIndex bytes" using unitIndex_ge4 [OF assms] .
  then have a: "arrayAt sizes (unitIndex bytes) = None" by (simp add: arrayAt_def sizes_def)
  have u: "showUnit None \<notin> set sizes" by (simp add: showUnit_def sizes_def str_def)
  have b: "bytes \<noteq> 0" using assms by (cases "bytes = 0") auto
  then have "formatFileSize bytes =
        showHundredths (toFixed2 (fdiv (real bytes) (1024 powr real_of_int (unitIndex bytes)))) @
        str '' undefined''"
    by (simp add: formatFileSize_def Let_def a showUnit_def str_def)
  with i a u show ?thesis by simp
qed

theorem formatFileSize_unit_out_of_table_witness:
  "(1024::nat) ^ 4 \<le> 1536 * 1024 ^ 3 \<and> unitIndex (1536 * 1024 ^ 3) = 4
   \<and> formatFileSize (1536 * 1024 ^ 3) = str ''1.5 undefined''
   \<and> (1024::nat) ^ 4 \<le> 2 ^ 50 - 1 \<and> unitIndex (2 ^ 50 - 1) = 5
   \<and> formatFileSize (2 ^ 50 - 1) = str ''1 undefined''"
proof -
  have h': "(1024::nat) ^ 4 \<le> 2 ^ 50 - 1" by simp
  note u' = unitIndex_below_2_pow_50
  have "real (2 ^ 50 - 1) / 1024 powr real_of_int 5 = real_of_int (2 ^ 53 - 8) / 2 ^ 53" by simp
  then have d': "fdiv (real (2 ^ 50 - 1)) (1024 powr real_of_int 5) = real_of_int (2 ^ 53 - 8) / 2 ^ 53"
    using roundToDouble_dyadic [of "2 ^ 53 - 8" 53] by (simp only: fdiv_def) simp
  have "formatFileSize (2 ^ 50 - 1) =
      showHundredths (toFixed2 (fdiv (real (2 ^ 50 - 1))
        (1024 powr real_of_int (unitIndex (2 ^ 50 - 1))))) @ str '' undefined''"
    using formatFileSize_unit_out_of_table [OF h'] by blast
  also have "\<dots> = str ''1 undefined''"
    unfolding u' d' by (simp add: toFixed2_def showHundredths_def numToString_digit str_def)
  finally have b: "formatFileSize (2 ^ 50 - 1) = str ''1 undefined''" .
  have h: "(1024::nat) ^ 4 \<le> 1536 * 1024 ^ 3" by simp
  note u = unitIndex_1536_gibibytes
  have d: "fdiv (real (1536 * 1024 ^ 3)) (1024 powr real_of_int 4) = 3 / 2"
    by (simp add: fdiv_def anchors)
  have "formatFileSize (1536 * 1024 ^ 3) =
      showHundredths (toFixed2 (fdiv (real (1536 * 1024 ^ 3))
        (1024 powr real_of_int (unitIndex (1536 * 1024 ^ 3))))) @ str '' undefined''"
    using formatFileSize_unit_out_of_table [OF h] by blast
  also have "\<dots> = str ''1.5 undefined''"
    unfolding u d by (simp add: toFixed2_def showHundredths_def numToString_digit str_def)
  finally show ?thesis using h u h' u' b by blast
qed

end
